theory Spec2Isabelle
  imports Main "HOL-Library.Word"
begin

section \<open>The NILFS atime file (fs/nilfs2/atime.c)\<close>

text \<open>
  The atime file keeps the access time of every inode in a metadata file of its own.
  Each block of the file is a \<^verbatim>\<open>struct nilfs_atime_block\<close>: a header counting
  the valid entries, then an array of \<^verbatim>\<open>struct timespec\<close>, one per inode
  number. An entry whose two fields are both zero is an invalid (absent) one.

  The model follows the second version of atime.c under src/ (the first is the earlier
  stub, whose \<^verbatim>\<open>nilfs_atime_fill_inode\<close> only copies \<^verbatim>\<open>i_mtime\<close>).
  Integers are those of an LP64 kernel: \<^verbatim>\<open>unsigned long\<close>, \<^verbatim>\<open>__u64\<close>
  and the two fields of \<^verbatim>\<open>struct timespec\<close> are 64 bits wide.
\<close>

subsection \<open>Data\<close>

type_synonym u64 = "64 word"

text \<open>The address of a \<^verbatim>\<open>struct inode\<close>. A pointer that may be NULL is an
  \<^typ>\<open>nat option\<close>, with \<^term>\<open>None\<close> for NULL.\<close>

type_synonym addr = nat

record timespec =
  tv_sec :: u64
  tv_nsec :: u64

record nilfs_atime_block_header =
  count :: u64

text \<open>\<^verbatim>\<open>sizeof(struct nilfs_atime_block_header)\<close>: one packed \<^verbatim>\<open>__u64\<close>.\<close>

definition sizeof_nilfs_atime_block_header :: u64 where
  "sizeof_nilfs_atime_block_header = 8"

text \<open>Modelled from the spec: \<^verbatim>\<open>struct timespec\<close> is declared in linux/time.h,
  which is not among the sources. The spec gives each entry as two 8-byte integers
  (seconds, nanoseconds) with no padding, 16 bytes in all.\<close>

definition sizeof_timespec :: u64 where
  "sizeof_timespec = 16"

text \<open>\<^verbatim>\<open>#define NILFS_ENTRIES_IN_ATIME_BLOCK
     ((512 - sizeof(struct nilfs_atime_block_header)) / sizeof(struct timespec))\<close>,
  computed in \<^verbatim>\<open>size_t\<close>.\<close>

definition NILFS_ENTRIES_IN_ATIME_BLOCK :: u64 where
  "NILFS_ENTRIES_IN_ATIME_BLOCK =
     (512 - sizeof_nilfs_atime_block_header) div sizeof_timespec"

text \<open>The array \<^verbatim>\<open>entries[NILFS_ENTRIES_IN_ATIME_BLOCK]\<close> is a function of the
  index; only the indices below \<^term>\<open>unat NILFS_ENTRIES_IN_ATIME_BLOCK\<close> belong to the
  block, and the code never computes another one.\<close>

record nilfs_atime_block =
  header :: nilfs_atime_block_header
  entries :: "nat \<Rightarrow> timespec"

record inode =
  i_ino :: u64
  i_atime :: timespec
  i_mtime :: timespec

text \<open>A buffer head names the block of the metadata file it holds.\<close>

record buffer_head =
  b_inode :: addr
  b_blocknr :: u64

datatype errno = EIO | ENOMEM

fun errno_code :: "errno \<Rightarrow> int" where
  "errno_code EIO = 5"
| "errno_code ENOMEM = 12"

text \<open>The \<^verbatim>\<open>int\<close> a function returns: 0 on success, the negated error code
  otherwise.\<close>

fun retval :: "errno + unit \<Rightarrow> int" where
  "retval (Inl e) = - errno_code e"
| "retval (Inr _) = 0"

subsection \<open>Addressing\<close>

definition nilfs_atime_get_block_number :: "u64 \<Rightarrow> u64" where
  "nilfs_atime_get_block_number inode_num = inode_num div NILFS_ENTRIES_IN_ATIME_BLOCK"

text \<open>The source returns \<^verbatim>\<open>&atime_block->entries[inode_num % N]\<close>; the model
  returns the index of that entry.\<close>

definition nilfs_atime_get_entry_in_block :: "u64 \<Rightarrow> nat" where
  "nilfs_atime_get_entry_in_block inode_num =
     unat (inode_num mod NILFS_ENTRIES_IN_ATIME_BLOCK)"

subsection \<open>The kernel state\<close>

text \<open>
  Modelled from the spec: the metadata file layer (mdt.c) and the buffer cache are not
  among the sources. A metadata file is the set of block numbers it maps and the
  contents of its blocks; the contents behind an unmapped number are whatever the
  memory holds, and the initializer overwrites them when the block is created.
\<close>

record mdt_file =
  mapped :: "u64 set"
  data :: "u64 \<Rightarrow> nilfs_atime_block"

text \<open>Every call the code makes into the layers below is recorded, in order. A request
  to the metadata file layer is recorded with its outcome (\<^term>\<open>None\<close>: success).\<close>

datatype event =
    Down_write addr
  | Up_write addr
  | Mdt_get_block addr u64 "errno option"
  | Kmap buffer_head
  | Mark_buffer_dirty buffer_head
  | Mdt_mark_dirty addr
  | Kunmap buffer_head
  | Brelse buffer_head
  | Mdt_delete_block addr u64 "errno option"

text \<open>
  The state: the inodes by address, the metadata file behind each inode
  (\<^verbatim>\<open>NILFS_MDT(inode)\<close> and its blocks), the outcomes the backing layer will give
  to the coming requests, first request first (\<^term>\<open>None\<close> is success, and every
  request past the end of the list succeeds), and the calls made so far.
\<close>

record kernel =
  inodes :: "addr \<Rightarrow> inode"
  mdt :: "addr \<Rightarrow> mdt_file"
  backing :: "errno option list"
  trace :: "event list"

definition log :: "event \<Rightarrow> kernel \<Rightarrow> kernel" where
  "log e s = s\<lparr>trace := trace s @ [e]\<rparr>"

definition next_outcome :: "kernel \<Rightarrow> errno option \<times> kernel" where
  "next_outcome s =
     (case backing s of [] \<Rightarrow> (None, s) | r # rs \<Rightarrow> (r, s\<lparr>backing := rs\<rparr>))"

text \<open>
  Modelled from the spec: \<^verbatim>\<open>nilfs_mdt_get_block\<close> is defined in mdt.c, which is not
  among the sources. The spec: get_block(file, block_number, create_if_missing,
  initializer) gives the block and a handle, or fails with IOError or OutOfMemory; a
  missing block is created and handed to the initializer. The comment of
  \<^verbatim>\<open>nilfs_atime_get_block\<close> in atime.c lists the same two errors, -EIO and
  -ENOMEM. atime.c always passes create = 1, the only case modelled. A failed request
  changes nothing.
\<close>

definition nilfs_mdt_get_block ::
  "addr \<Rightarrow> u64 \<Rightarrow> (nilfs_atime_block \<Rightarrow> nilfs_atime_block) \<Rightarrow> kernel
     \<Rightarrow> (errno + buffer_head) \<times> kernel" where
  "nilfs_mdt_get_block file blkoff init s =
     (case next_outcome s of
        (Some e, s1) \<Rightarrow> (Inl e, log (Mdt_get_block file blkoff (Some e)) s1)
      | (None, s1) \<Rightarrow>
          (Inr \<lparr>b_inode = file, b_blocknr = blkoff\<rparr>,
           log (Mdt_get_block file blkoff None)
             (if blkoff \<in> mapped (mdt s1 file) then s1
              else s1\<lparr>mdt := (mdt s1)(file :=
                     \<lparr>mapped = insert blkoff (mapped (mdt s1 file)),
                      data = (data (mdt s1 file))
                               (blkoff := init (data (mdt s1 file) blkoff))\<rparr>)\<rparr>)))"

text \<open>
  Modelled from the spec: \<^verbatim>\<open>nilfs_mdt_delete_block\<close> is defined in mdt.c, which is
  not among the sources. The spec: delete_block(file, block_number) returns an empty
  block to the backing store's free space, so that the block is created anew on the next
  access. The request goes to the backing layer and can fail as any other; a failed
  request changes nothing.
\<close>

definition nilfs_mdt_delete_block :: "addr \<Rightarrow> u64 \<Rightarrow> kernel \<Rightarrow> (errno + unit) \<times> kernel" where
  "nilfs_mdt_delete_block file block s =
     (case next_outcome s of
        (Some e, s1) \<Rightarrow> (Inl e, log (Mdt_delete_block file block (Some e)) s1)
      | (None, s1) \<Rightarrow>
          (Inr (),
           log (Mdt_delete_block file block None)
             (s1\<lparr>mdt := (mdt s1)(file :=
                     (mdt s1 file)\<lparr>mapped := mapped (mdt s1 file) - {block}\<rparr>)\<rparr>)))"

subsection \<open>Memory behind a buffer head\<close>

text \<open>The code reads and writes the block through the pointer
  \<^verbatim>\<open>kaddr + bh_offset(bh)\<close>: every write lands in the block of the file.\<close>

definition bh_block :: "kernel \<Rightarrow> buffer_head \<Rightarrow> nilfs_atime_block" where
  "bh_block s bh = data (mdt s (b_inode bh)) (b_blocknr bh)"

definition bh_store :: "buffer_head \<Rightarrow> nilfs_atime_block \<Rightarrow> kernel \<Rightarrow> kernel" where
  "bh_store bh blk s =
     s\<lparr>mdt := (mdt s)(b_inode bh :=
          (mdt s (b_inode bh))\<lparr>data := (data (mdt s (b_inode bh)))(b_blocknr bh := blk)\<rparr>)\<rparr>"

definition set_entry :: "buffer_head \<Rightarrow> nat \<Rightarrow> timespec \<Rightarrow> kernel \<Rightarrow> kernel" where
  "set_entry bh i t s =
     bh_store bh ((bh_block s bh)\<lparr>entries := (entries (bh_block s bh))(i := t)\<rparr>) s"

definition set_count :: "buffer_head \<Rightarrow> u64 \<Rightarrow> kernel \<Rightarrow> kernel" where
  "set_count bh c s =
     bh_store bh ((bh_block s bh)\<lparr>header := (header (bh_block s bh))\<lparr>count := c\<rparr>\<rparr>) s"

definition set_i_atime :: "addr \<Rightarrow> timespec \<Rightarrow> kernel \<Rightarrow> kernel" where
  "set_i_atime inode t s = s\<lparr>inodes := (inodes s)(inode := (inodes s inode)\<lparr>i_atime := t\<rparr>)\<rparr>"

subsection \<open>Getting and putting a block of the atime file\<close>

text \<open>\<^verbatim>\<open>memset(atime_block, 0, sizeof(*atime_block))\<close>: the counter and every entry
  of the block become zero, whatever the memory held.\<close>

definition nilfs_atime_block_init :: "nilfs_atime_block \<Rightarrow> nilfs_atime_block" where
  "nilfs_atime_block_init atime_block =
     \<lparr>header = \<lparr>count = 0\<rparr>, entries = (\<lambda>_. \<lparr>tv_sec = 0, tv_nsec = 0\<rparr>)\<rparr>"

text \<open>The result is \<^term>\<open>Inl ret\<close> where the source returns \<^verbatim>\<open>ret < 0\<close> and
  leaves both output pointers unset, and \<^term>\<open>Inr block_bh\<close> where it returns 0; the
  block pointer it also stores is the memory behind \<^term>\<open>block_bh\<close>.\<close>

definition nilfs_atime_get_block :: "addr \<Rightarrow> u64 \<Rightarrow> kernel \<Rightarrow> (errno + buffer_head) \<times> kernel" where
  "nilfs_atime_get_block atimefile inode_num s =
     (let s1 = log (Down_write atimefile) s in
      case nilfs_mdt_get_block atimefile (nilfs_atime_get_block_number inode_num)
             nilfs_atime_block_init s1 of
        (Inl ret, s2) \<Rightarrow> (Inl ret, log (Up_write atimefile) s2)
      | (Inr block_bh, s2) \<Rightarrow>
          (let s3 = log (Kmap block_bh) s2;
               s4 = log (Mark_buffer_dirty block_bh) s3;
               s5 = log (Mdt_mark_dirty atimefile) s4
           in (Inr block_bh, log (Up_write atimefile) s5)))"

definition nilfs_atime_put_block :: "buffer_head \<Rightarrow> kernel \<Rightarrow> kernel" where
  "nilfs_atime_put_block block_bh s = log (Brelse block_bh) (log (Kunmap block_bh) s)"

subsection \<open>Setting, getting and deleting an atime\<close>

text \<open>\<^verbatim>\<open>atimefile\<close> may be NULL in \<^verbatim>\<open>nilfs_atime_fill_inode\<close>, which tests
  it. The other two functions dereference it at once, so their argument is an address.\<close>

definition nilfs_atime_fill_inode :: "addr option \<Rightarrow> addr \<Rightarrow> kernel \<Rightarrow> (errno + unit) \<times> kernel" where
  "nilfs_atime_fill_inode atimefile inode s =
     (if atimefile = None \<or> atimefile = Some inode then
        (Inr (), set_i_atime inode (i_mtime (inodes s inode)) s)
      else
        case nilfs_atime_get_block (the atimefile) (i_ino (inodes s inode)) s of
          (Inl err, s1) \<Rightarrow> (Inl err, s1)
        | (Inr block_bh, s1) \<Rightarrow>
            (let atime = nilfs_atime_get_entry_in_block (i_ino (inodes s1 inode));
                 s2 = (if tv_sec (entries (bh_block s1 block_bh) atime) = 0
                          \<and> tv_nsec (entries (bh_block s1 block_bh) atime) = 0
                       then
                         (let s' = set_entry block_bh atime (i_mtime (inodes s1 inode)) s1
                          in set_count block_bh (count (header (bh_block s' block_bh)) + 1) s')
                       else s1);
                 s3 = set_i_atime inode (entries (bh_block s2 block_bh) atime) s2
             in (Inr (), nilfs_atime_put_block block_bh s3)))"

definition nilfs_atime_update_from_inode :: "addr \<Rightarrow> addr \<Rightarrow> kernel \<Rightarrow> (errno + unit) \<times> kernel" where
  "nilfs_atime_update_from_inode atimefile inode s =
     (case nilfs_atime_get_block atimefile (i_ino (inodes s inode)) s of
        (Inl err, s1) \<Rightarrow> (Inl err, s1)
      | (Inr block_bh, s1) \<Rightarrow>
          (let atime = nilfs_atime_get_entry_in_block (i_ino (inodes s1 inode));
               s2 = set_entry block_bh atime (i_atime (inodes s1 inode)) s1
           in (Inr (), nilfs_atime_put_block block_bh s2)))"

definition nilfs_atime_delete_inode_entry :: "addr \<Rightarrow> addr \<Rightarrow> kernel \<Rightarrow> (errno + unit) \<times> kernel" where
  "nilfs_atime_delete_inode_entry atimefile inode s =
     (case nilfs_atime_get_block atimefile (i_ino (inodes s inode)) s of
        (Inl err, s1) \<Rightarrow> (Inl err, s1)
      | (Inr block_bh, s1) \<Rightarrow>
          (let atime = nilfs_atime_get_entry_in_block (i_ino (inodes s1 inode));
               s2 = set_entry block_bh atime ((entries (bh_block s1 block_bh) atime)\<lparr>tv_sec := 0\<rparr>) s1;
               s3 = set_entry block_bh atime ((entries (bh_block s2 block_bh) atime)\<lparr>tv_nsec := 0\<rparr>) s2;
               s4 = set_count block_bh (count (header (bh_block s3 block_bh)) - 1) s3;
               needs_release = (0 = count (header (bh_block s4 block_bh)));
               s5 = nilfs_atime_put_block block_bh s4
           in (Inr (),
               if needs_release then
                 snd (nilfs_mdt_delete_block atimefile
                        (nilfs_atime_get_block_number (i_ino (inodes s5 inode))) s5)
               else s5)))"

subsection \<open>Observing a state\<close>

text \<open>The block of a file as the next successful \<^verbatim>\<open>nilfs_atime_get_block\<close> hands
  it out: the mapped block, or a newly initialized one.\<close>

definition block_view :: "kernel \<Rightarrow> addr \<Rightarrow> u64 \<Rightarrow> nilfs_atime_block" where
  "block_view s file blk =
     (if blk \<in> mapped (mdt s file) then data (mdt s file) blk
      else nilfs_atime_block_init (data (mdt s file) blk))"

text \<open>The calls made on the way from state \<open>s\<close> to state \<open>s'\<close>.\<close>

definition calls_since :: "kernel \<Rightarrow> kernel \<Rightarrow> event list" where
  "calls_since s s' = drop (length (trace s)) (trace s')"

text \<open>The outcome the backing layer will give to the \<open>n\<close>-th coming request, counted
  from 0.\<close>

definition outcome :: "nat \<Rightarrow> kernel \<Rightarrow> errno option" where
  "outcome n s = (if n < length (backing s) then backing s ! n else None)"

text \<open>The calls of a successful \<^verbatim>\<open>nilfs_atime_get_block\<close> and of
  \<^verbatim>\<open>nilfs_atime_put_block\<close>.\<close>

definition get_events :: "addr \<Rightarrow> u64 \<Rightarrow> event list" where
  "get_events af bn =
     [Down_write af, Mdt_get_block af bn None, Kmap \<lparr>b_inode = af, b_blocknr = bn\<rparr>,
      Mark_buffer_dirty \<lparr>b_inode = af, b_blocknr = bn\<rparr>, Mdt_mark_dirty af, Up_write af]"

definition put_events :: "addr \<Rightarrow> u64 \<Rightarrow> event list" where
  "put_events af bn =
     [Kunmap \<lparr>b_inode = af, b_blocknr = bn\<rparr>, Brelse \<lparr>b_inode = af, b_blocknr = bn\<rparr>]"

text \<open>An entry is invalid when both fields are zero, as \<^verbatim>\<open>nilfs_atime_fill_inode\<close>
  tests it.\<close>

definition invalid :: "timespec \<Rightarrow> bool" where
  "invalid t = (tv_sec t = 0 \<and> tv_nsec t = 0)"

text \<open>The number of valid entries of a block, and the agreement of its counter with
  that number.\<close>

definition live_entries :: "nilfs_atime_block \<Rightarrow> nat" where
  "live_entries blk =
     length (filter (\<lambda>i. \<not> invalid (entries blk i)) [0..<unat NILFS_ENTRIES_IN_ATIME_BLOCK])"

definition count_ok :: "nilfs_atime_block \<Rightarrow> bool" where
  "count_ok blk = (unat (count (header blk)) = live_entries blk)"

subsection \<open>Closed forms of the state changes\<close>

definition acquire :: "addr \<Rightarrow> u64 \<Rightarrow> nilfs_atime_block \<Rightarrow> kernel \<Rightarrow> kernel" where
  "acquire file blk b s =
     s\<lparr>mdt := (mdt s)(file := \<lparr>mapped = insert blk (mapped (mdt s file)),
                                data = (data (mdt s file))(blk := b)\<rparr>)\<rparr>"

definition block_after_fill :: "nilfs_atime_block \<Rightarrow> nat \<Rightarrow> timespec \<Rightarrow> nilfs_atime_block" where
  "block_after_fill blk i t =
     (if tv_sec (entries blk i) = 0 \<and> tv_nsec (entries blk i) = 0
      then blk\<lparr>entries := (entries blk)(i := t),
                header := (header blk)\<lparr>count := count (header blk) + 1\<rparr>\<rparr>
      else blk)"

definition block_after_delete :: "nilfs_atime_block \<Rightarrow> nat \<Rightarrow> nilfs_atime_block" where
  "block_after_delete blk i =
     blk\<lparr>entries := (entries blk)(i := \<lparr>tv_sec = 0, tv_nsec = 0\<rparr>),
         header := (header blk)\<lparr>count := count (header blk) - 1\<rparr>\<rparr>"

definition filled :: "addr \<Rightarrow> addr \<Rightarrow> kernel \<Rightarrow> kernel" where
  "filled af p s =
     (let bn = nilfs_atime_get_block_number (i_ino (inodes s p));
          i = nilfs_atime_get_entry_in_block (i_ino (inodes s p));
          blk = block_after_fill (block_view s af bn) i (i_mtime (inodes s p))
      in (acquire af bn blk s)
           \<lparr>inodes := (inodes s)(p := (inodes s p)\<lparr>i_atime := entries blk i\<rparr>),
            backing := tl (backing s),
            trace := trace s @ get_events af bn @ put_events af bn\<rparr>)"

definition updated :: "addr \<Rightarrow> addr \<Rightarrow> kernel \<Rightarrow> kernel" where
  "updated af p s =
     (let bn = nilfs_atime_get_block_number (i_ino (inodes s p));
          i = nilfs_atime_get_entry_in_block (i_ino (inodes s p));
          blk = (block_view s af bn)
                  \<lparr>entries := (entries (block_view s af bn))(i := i_atime (inodes s p))\<rparr>
      in (acquire af bn blk s)
           \<lparr>backing := tl (backing s),
            trace := trace s @ get_events af bn @ put_events af bn\<rparr>)"

definition released :: "addr \<Rightarrow> addr \<Rightarrow> kernel \<Rightarrow> kernel" where
  "released af p s =
     (let bn = nilfs_atime_get_block_number (i_ino (inodes s p));
          i = nilfs_atime_get_entry_in_block (i_ino (inodes s p))
      in (acquire af bn (block_after_delete (block_view s af bn) i) s)
           \<lparr>backing := tl (backing s),
            trace := trace s @ get_events af bn @ put_events af bn\<rparr>)"

definition refused :: "addr \<Rightarrow> u64 \<Rightarrow> errno \<Rightarrow> kernel \<Rightarrow> kernel" where
  "refused af n e s =
     s\<lparr>backing := tl (backing s),
       trace := trace s @ [Down_write af,
                  Mdt_get_block af (nilfs_atime_get_block_number n) (Some e), Up_write af]\<rparr>"

subsection \<open>Sequences of operations\<close>

datatype atime_op = Fill addr | Delete addr

fun step :: "addr \<Rightarrow> atime_op \<Rightarrow> kernel \<Rightarrow> kernel" where
  "step af (Fill p) s = snd (nilfs_atime_fill_inode (Some af) p s)"
| "step af (Delete p) s = snd (nilfs_atime_delete_inode_entry af p s)"

fun run :: "addr \<Rightarrow> atime_op list \<Rightarrow> kernel \<Rightarrow> kernel" where
  "run af [] s = s"
| "run af (x # xs) s = run af xs (step af x s)"

text \<open>A sequence is regular when every fill comes with a modification time other than
  (0,0) and every delete finds a valid entry in its slot.\<close>

fun regular_op :: "addr \<Rightarrow> atime_op \<Rightarrow> kernel \<Rightarrow> bool" where
  "regular_op af (Fill p) s = (\<not> invalid (i_mtime (inodes s p)))"
| "regular_op af (Delete p) s =
     (\<not> invalid (entries (block_view s af (nilfs_atime_get_block_number (i_ino (inodes s p))))
                    (nilfs_atime_get_entry_in_block (i_ino (inodes s p)))))"

fun regular :: "addr \<Rightarrow> atime_op list \<Rightarrow> kernel \<Rightarrow> bool" where
  "regular af [] s = True"
| "regular af (x # xs) s = (regular_op af x s \<and> regular af xs (step af x s))"

subsection \<open>An example state\<close>

text \<open>No file maps a block, the memory behind every block number holds stale data,
  the backing layer serves every request, and nothing has been called. The atime file is
  the inode at address 5. The inode at address 11 has number 10 and modification time
  (1000,0), the one at address 12 the same number and the time (2000,0), the one at
  address 13 the number 31, the one at address 14 the number 30; every other inode has
  number 0 and the modification time (0,0).\<close>

definition boot :: kernel where
  "boot =
     \<lparr>inodes = (\<lambda>_. \<lparr>i_ino = 0, i_atime = \<lparr>tv_sec = 0, tv_nsec = 0\<rparr>,
                       i_mtime = \<lparr>tv_sec = 0, tv_nsec = 0\<rparr>\<rparr>)
         (11 := \<lparr>i_ino = 10, i_atime = \<lparr>tv_sec = 0, tv_nsec = 0\<rparr>,
                 i_mtime = \<lparr>tv_sec = 1000, tv_nsec = 0\<rparr>\<rparr>,
          12 := \<lparr>i_ino = 10, i_atime = \<lparr>tv_sec = 0, tv_nsec = 0\<rparr>,
                 i_mtime = \<lparr>tv_sec = 2000, tv_nsec = 0\<rparr>\<rparr>,
          13 := \<lparr>i_ino = 31, i_atime = \<lparr>tv_sec = 0, tv_nsec = 0\<rparr>,
                 i_mtime = \<lparr>tv_sec = 3000, tv_nsec = 5\<rparr>\<rparr>,
          14 := \<lparr>i_ino = 30, i_atime = \<lparr>tv_sec = 0, tv_nsec = 0\<rparr>,
                 i_mtime = \<lparr>tv_sec = 1500, tv_nsec = 0\<rparr>\<rparr>),
      mdt = (\<lambda>_. \<lparr>mapped = {},
                    data = (\<lambda>_. \<lparr>header = \<lparr>count = 7\<rparr>,
                                   entries = (\<lambda>_. \<lparr>tv_sec = 9, tv_nsec = 9\<rparr>)\<rparr>)\<rparr>),
      backing = [],
      trace = []\<rparr>"

subsection \<open>Addressing: properties\<close>

lemma entries_in_block_31: "NILFS_ENTRIES_IN_ATIME_BLOCK = 31"
  by (simp add: NILFS_ENTRIES_IN_ATIME_BLOCK_def sizeof_nilfs_atime_block_header_def
      sizeof_timespec_def)

lemma entry_in_block_bound:
  "nilfs_atime_get_entry_in_block n < unat NILFS_ENTRIES_IN_ATIME_BLOCK"
  unfolding nilfs_atime_get_entry_in_block_def entries_in_block_31
  by (simp add: unat_mod)

subsection \<open>The operations in closed form\<close>

lemma next_outcome_log [simp]: "fst (next_outcome (log e s)) = fst (next_outcome s)"
  by (simp add: next_outcome_def log_def split: list.splits)

lemma mdt_get_block_Inr:
  assumes "fst (next_outcome s) = None"
  shows "nilfs_mdt_get_block af bn nilfs_atime_block_init s =
           (Inr \<lparr>b_inode = af, b_blocknr = bn\<rparr>,
            (acquire af bn (block_view s af bn) s)
              \<lparr>backing := tl (backing s), trace := trace s @ [Mdt_get_block af bn None]\<rparr>)"
  using assms
  by (cases s) (auto simp: nilfs_mdt_get_block_def next_outcome_def log_def acquire_def
      block_view_def insert_absorb split: list.splits)

lemma mdt_get_block_Inl:
  assumes "fst (next_outcome s) = Some e"
  shows "nilfs_mdt_get_block af bn init s =
           (Inl e, s\<lparr>backing := tl (backing s),
                      trace := trace s @ [Mdt_get_block af bn (Some e)]\<rparr>)"
  using assms
  by (cases s) (auto simp: nilfs_mdt_get_block_def next_outcome_def log_def split: list.splits)

lemma get_block_Inr:
  assumes "fst (next_outcome s) = None"
  shows "nilfs_atime_get_block af n s =
           (Inr \<lparr>b_inode = af, b_blocknr = nilfs_atime_get_block_number n\<rparr>,
            (acquire af (nilfs_atime_get_block_number n)
               (block_view s af (nilfs_atime_get_block_number n)) s)
              \<lparr>backing := tl (backing s),
               trace := trace s @ get_events af (nilfs_atime_get_block_number n)\<rparr>)"
  using assms
  by (simp add: nilfs_atime_get_block_def mdt_get_block_Inr get_events_def)
     (simp add: log_def acquire_def block_view_def)

lemma get_block_Inl:
  assumes "fst (next_outcome s) = Some e"
  shows "nilfs_atime_get_block af n s = (Inl e, refused af n e s)"
  using assms
  by (simp add: nilfs_atime_get_block_def mdt_get_block_Inl refused_def) (simp add: log_def)

lemma get_block_Inr_outcome:
  "fst (nilfs_atime_get_block af n s) = Inr bh \<Longrightarrow> fst (next_outcome s) = None"
  by (cases "fst (next_outcome s)") (simp_all add: get_block_Inl)

lemma get_block_Inl_outcome:
  "fst (nilfs_atime_get_block af n s) = Inl e \<Longrightarrow> fst (next_outcome s) = Some e"
  by (cases "fst (next_outcome s)") (simp_all add: get_block_Inl get_block_Inr)

lemma fill_inode_Inr:
  assumes "af \<noteq> p" and "fst (next_outcome s) = None"
  shows "nilfs_atime_fill_inode (Some af) p s = (Inr (), filled af p s)"
  using assms
  apply (cases s)
  apply (simp add: nilfs_atime_fill_inode_def get_block_Inr Let_def block_after_fill_def
      filled_def)
  apply (auto simp add: acquire_def bh_block_def bh_store_def set_entry_def set_count_def
      set_i_atime_def nilfs_atime_put_block_def log_def put_events_def)
  done

lemma fill_inode_Inl:
  assumes "af \<noteq> p" and "fst (next_outcome s) = Some e"
  shows "nilfs_atime_fill_inode (Some af) p s = (Inl e, refused af (i_ino (inodes s p)) e s)"
  using assms by (simp add: nilfs_atime_fill_inode_def get_block_Inl)

lemma fill_inode_bypass:
  assumes "atimefile = None \<or> atimefile = Some p"
  shows "nilfs_atime_fill_inode atimefile p s =
           (Inr (), s\<lparr>inodes := (inodes s)(p := (inodes s p)\<lparr>i_atime := i_mtime (inodes s p)\<rparr>)\<rparr>)"
  using assms by (auto simp add: nilfs_atime_fill_inode_def set_i_atime_def)

lemma update_Inr:
  assumes "fst (next_outcome s) = None"
  shows "nilfs_atime_update_from_inode af p s = (Inr (), updated af p s)"
  using assms
  apply (cases s)
  apply (simp add: nilfs_atime_update_from_inode_def get_block_Inr Let_def updated_def)
  apply (auto simp add: acquire_def bh_block_def bh_store_def set_entry_def
      nilfs_atime_put_block_def log_def put_events_def)
  done

lemma update_Inl:
  assumes "fst (next_outcome s) = Some e"
  shows "nilfs_atime_update_from_inode af p s = (Inl e, refused af (i_ino (inodes s p)) e s)"
  using assms by (simp add: nilfs_atime_update_from_inode_def get_block_Inl)

lemma delete_Inl:
  assumes "fst (next_outcome s) = Some e"
  shows "nilfs_atime_delete_inode_entry af p s = (Inl e, refused af (i_ino (inodes s p)) e s)"
  using assms by (simp add: nilfs_atime_delete_inode_entry_def get_block_Inl)

lemma delete_Inr:
  assumes "fst (next_outcome s) = None"
  shows "nilfs_atime_delete_inode_entry af p s =
           (Inr (),
            if count (header (block_view s af
                 (nilfs_atime_get_block_number (i_ino (inodes s p))))) = 1
            then snd (nilfs_mdt_delete_block af
                 (nilfs_atime_get_block_number (i_ino (inodes s p))) (released af p s))
            else released af p s)"
proof -
  have eq: "(0 = c - 1) = (c = 1)" for c :: u64
    by auto
  have ts: "t\<lparr>tv_sec := a, tv_nsec := b\<rparr> = \<lparr>tv_sec = a, tv_nsec = b\<rparr>" for t a b
    by (cases t) simp
  show ?thesis
    using assms
    apply (cases s)
    apply (simp add: nilfs_atime_delete_inode_entry_def get_block_Inr Let_def)
    apply (auto simp add: acquire_def bh_block_def bh_store_def set_entry_def set_count_def
        nilfs_atime_put_block_def log_def put_events_def released_def block_after_delete_def
        Let_def eq ts)
    done
qed

text \<open>
  C3. For every inode number, the block number times the entries per block plus the
  index in the block gives the inode number back, in 64-bit arithmetic and (no product
  or sum wraps) in the natural numbers. Both functions are pure and defined for every
  64-bit argument: they take no state and have no error result.
\<close>

theorem addressing_roundtrip:
  "nilfs_atime_get_block_number n = n div NILFS_ENTRIES_IN_ATIME_BLOCK
   \<and> nilfs_atime_get_entry_in_block n = unat (n mod NILFS_ENTRIES_IN_ATIME_BLOCK)
   \<and> nilfs_atime_get_block_number n * NILFS_ENTRIES_IN_ATIME_BLOCK
       + n mod NILFS_ENTRIES_IN_ATIME_BLOCK = n
   \<and> unat (nilfs_atime_get_block_number n) * unat NILFS_ENTRIES_IN_ATIME_BLOCK
       + nilfs_atime_get_entry_in_block n = unat n"
proof -
  have "n div NILFS_ENTRIES_IN_ATIME_BLOCK * NILFS_ENTRIES_IN_ATIME_BLOCK
        + n mod NILFS_ENTRIES_IN_ATIME_BLOCK = n"
    by (rule div_mult_mod_eq)
  moreover have "unat (n div NILFS_ENTRIES_IN_ATIME_BLOCK) * unat NILFS_ENTRIES_IN_ATIME_BLOCK
        + unat (n mod NILFS_ENTRIES_IN_ATIME_BLOCK) = unat n"
    by (simp add: unat_div unat_mod)
  ultimately show ?thesis
    by (simp add: nilfs_atime_get_block_number_def nilfs_atime_get_entry_in_block_def)
qed

subsection \<open>Calls, outcomes and the example state\<close>

lemma next_outcome_0: "fst (next_outcome s) = outcome 0 s"
  by (cases "backing s") (simp_all add: next_outcome_def outcome_def)

lemma refused_frame:
  "inodes (refused af n e s) = inodes s" "mdt (refused af n e s) = mdt s"
  "calls_since s (refused af n e s) =
     [Down_write af, Mdt_get_block af (nilfs_atime_get_block_number n) (Some e), Up_write af]"
  by (simp_all add: refused_def calls_since_def)

lemma released_trace:
  "trace (released af p s) = trace s @
     get_events af (nilfs_atime_get_block_number (i_ino (inodes s p)))
     @ put_events af (nilfs_atime_get_block_number (i_ino (inodes s p)))"
  by (simp add: released_def Let_def)

lemma released_mdt:
  "mdt (released af p s) =
     (mdt s)(af := \<lparr>mapped = insert (nilfs_atime_get_block_number (i_ino (inodes s p)))
                                 (mapped (mdt s af)),
                     data = (data (mdt s af))
                       (nilfs_atime_get_block_number (i_ino (inodes s p)) :=
                          block_after_delete
                            (block_view s af (nilfs_atime_get_block_number (i_ino (inodes s p))))
                            (nilfs_atime_get_entry_in_block (i_ino (inodes s p))))\<rparr>)"
  by (simp add: released_def Let_def acquire_def)

lemma released_inodes: "inodes (released af p s) = inodes s"
  by (simp add: released_def Let_def acquire_def)

lemma released_outcome: "fst (next_outcome (released af p s)) = outcome 1 s"
proof (cases "backing s")
  case Nil
  then show ?thesis
    by (simp add: released_def Let_def acquire_def next_outcome_def outcome_def)
next
  case (Cons r rs)
  then show ?thesis
    by (cases rs) (simp_all add: released_def Let_def acquire_def next_outcome_def outcome_def)
qed

lemma mdt_delete_block_trace:
  "trace (snd (nilfs_mdt_delete_block af bn s)) =
     trace s @ [Mdt_delete_block af bn (fst (next_outcome s))]"
  by (cases s)
     (auto simp: nilfs_mdt_delete_block_def next_outcome_def log_def
       split: list.splits option.splits)

lemma mdt_delete_block_result:
  "fst (nilfs_mdt_delete_block af bn s) =
     (case fst (next_outcome s) of None \<Rightarrow> Inr () | Some e \<Rightarrow> Inl e)"
  by (cases s)
     (auto simp: nilfs_mdt_delete_block_def next_outcome_def split: list.splits option.splits)

lemma mdt_delete_block_mdt:
  "mdt (snd (nilfs_mdt_delete_block af bn s)) =
     (case fst (next_outcome s) of
        None \<Rightarrow> (mdt s)(af := (mdt s af)\<lparr>mapped := mapped (mdt s af) - {bn}\<rparr>)
      | Some e \<Rightarrow> mdt s)"
  by (cases s)
     (auto simp: nilfs_mdt_delete_block_def next_outcome_def log_def
       split: list.splits option.splits)

lemma mdt_delete_block_inodes:
  "inodes (snd (nilfs_mdt_delete_block af bn s)) = inodes s"
  by (cases s)
     (auto simp: nilfs_mdt_delete_block_def next_outcome_def log_def
       split: list.splits option.splits)

lemma view_backing [simp]: "block_view (s\<lparr>backing := b\<rparr>) f n = block_view s f n"
  by (simp add: block_view_def)

lemma boot_simps:
  "inodes boot 11 = \<lparr>i_ino = 10, i_atime = \<lparr>tv_sec = 0, tv_nsec = 0\<rparr>,
                      i_mtime = \<lparr>tv_sec = 1000, tv_nsec = 0\<rparr>\<rparr>"
  "inodes boot 12 = \<lparr>i_ino = 10, i_atime = \<lparr>tv_sec = 0, tv_nsec = 0\<rparr>,
                      i_mtime = \<lparr>tv_sec = 2000, tv_nsec = 0\<rparr>\<rparr>"
  "inodes boot 13 = \<lparr>i_ino = 31, i_atime = \<lparr>tv_sec = 0, tv_nsec = 0\<rparr>,
                      i_mtime = \<lparr>tv_sec = 3000, tv_nsec = 5\<rparr>\<rparr>"
  "inodes boot 14 = \<lparr>i_ino = 30, i_atime = \<lparr>tv_sec = 0, tv_nsec = 0\<rparr>,
                      i_mtime = \<lparr>tv_sec = 1500, tv_nsec = 0\<rparr>\<rparr>"
  "inodes boot 20 = \<lparr>i_ino = 0, i_atime = \<lparr>tv_sec = 0, tv_nsec = 0\<rparr>,
                      i_mtime = \<lparr>tv_sec = 0, tv_nsec = 0\<rparr>\<rparr>"
  "mapped (mdt boot f) = {}"
  "backing boot = []" "trace boot = []"
  by (simp_all add: boot_def)

lemma block_numbers:
  "nilfs_atime_get_block_number 10 = 0" "nilfs_atime_get_block_number 30 = 0"
  "nilfs_atime_get_block_number 31 = 1" "nilfs_atime_get_block_number 0 = 0"
  "nilfs_atime_get_entry_in_block 10 = 10" "nilfs_atime_get_entry_in_block 31 = 0"
  "nilfs_atime_get_entry_in_block 30 = 30" "nilfs_atime_get_entry_in_block 0 = 0"
  by (simp_all add: nilfs_atime_get_block_number_def nilfs_atime_get_entry_in_block_def
      entries_in_block_31)

lemma boot_view:
  "block_view boot f b =
     \<lparr>header = \<lparr>count = 0\<rparr>, entries = (\<lambda>_. \<lparr>tv_sec = 0, tv_nsec = 0\<rparr>)\<rparr>"
  by (simp add: block_view_def boot_simps nilfs_atime_block_init_def)

lemma boot_outcome: "outcome n boot = None" "fst (next_outcome boot) = None"
  by (simp_all add: outcome_def next_outcome_def boot_simps)

lemma boot_filled:
  "nilfs_atime_fill_inode (Some 5) 11 boot = (Inr (), filled 5 11 boot)"
  "inodes (filled 5 11 boot) 11 =
     \<lparr>i_ino = 10, i_atime = \<lparr>tv_sec = 1000, tv_nsec = 0\<rparr>,
      i_mtime = \<lparr>tv_sec = 1000, tv_nsec = 0\<rparr>\<rparr>"
  "inodes (filled 5 11 boot) 12 = inodes boot 12"
  "block_view (filled 5 11 boot) 5 0 =
     \<lparr>header = \<lparr>count = 1\<rparr>,
      entries = (\<lambda>_. \<lparr>tv_sec = 0, tv_nsec = 0\<rparr>)(10 := \<lparr>tv_sec = 1000, tv_nsec = 0\<rparr>)\<rparr>"
  "mapped (mdt (filled 5 11 boot) 5) = {0}"
  "backing (filled 5 11 boot) = []"
  "trace (filled 5 11 boot) = get_events 5 0 @ put_events 5 0"
  by (simp_all add: fill_inode_Inr boot_outcome filled_def Let_def boot_simps block_numbers
      boot_view block_after_fill_def acquire_def block_view_def nilfs_atime_block_init_def)

subsection \<open>Bypass mode\<close>

text \<open>
  C7. With no atime file (\<^verbatim>\<open>atimefile\<close> is NULL), \<^verbatim>\<open>nilfs_atime_fill_inode\<close>
  returns 0 for every inode and every state, the inode's \<^verbatim>\<open>i_atime\<close> becomes its
  \<^verbatim>\<open>i_mtime\<close> and nothing else changes: no call is made into the layers below (no
  block is acquired, marked dirty or released), no block of any file is touched and no
  request reaches the backing layer.
\<close>

theorem fill_inode_bypass_mode:
  "nilfs_atime_fill_inode None inode s =
     (Inr (), s\<lparr>inodes := (inodes s)
                   (inode := (inodes s inode)\<lparr>i_atime := i_mtime (inodes s inode)\<rparr>)\<rparr>)
   \<and> retval (fst (nilfs_atime_fill_inode None inode s)) = 0
   \<and> i_atime (inodes (snd (nilfs_atime_fill_inode None inode s)) inode)
       = i_mtime (inodes s inode)
   \<and> calls_since s (snd (nilfs_atime_fill_inode None inode s)) = []
   \<and> mdt (snd (nilfs_atime_fill_inode None inode s)) = mdt s
   \<and> backing (snd (nilfs_atime_fill_inode None inode s)) = backing s"
  by (simp add: fill_inode_bypass calls_since_def)

subsection \<open>Reclaiming an empty block\<close>

text \<open>
  C4. Whenever the acquisition succeeds, the calls of
  \<^verbatim>\<open>nilfs_atime_delete_inode_entry\<close> are those of the acquisition, then
  \<^verbatim>\<open>kunmap\<close> and \<^verbatim>\<open>brelse\<close> of the buffer, and then, exactly when the counter
  stood at 1 and the decrement made it 0, one \<^verbatim>\<open>nilfs_mdt_delete_block\<close> of the
  block's number: the single reclamation request comes after the release. When the
  decremented counter is not 0 the calls end with the release and no reclamation is
  requested.
\<close>

theorem reclamation_follows_release:
  assumes "fst (nilfs_atime_get_block atimefile (i_ino (inodes s inode)) s) = Inr bh"
  shows "let bn = nilfs_atime_get_block_number (i_ino (inodes s inode));
             s' = snd (nilfs_atime_delete_inode_entry atimefile inode s)
         in bh = \<lparr>b_inode = atimefile, b_blocknr = bn\<rparr>
          \<and> (count (header (block_view s atimefile bn)) = 1 \<longrightarrow>
               calls_since s s' =
                 get_events atimefile bn
                 @ [Kunmap bh, Brelse bh, Mdt_delete_block atimefile bn (outcome 1 s)])
          \<and> (count (header (block_view s atimefile bn)) - 1 \<noteq> 0 \<longrightarrow>
               calls_since s s' = get_events atimefile bn @ [Kunmap bh, Brelse bh])"
proof -
  have ok: "fst (next_outcome s) = None"
    using assms by (rule get_block_Inr_outcome)
  have bh: "bh = \<lparr>b_inode = atimefile,
                  b_blocknr = nilfs_atime_get_block_number (i_ino (inodes s inode))\<rparr>"
    using assms by (simp add: get_block_Inr [OF ok])
  have one: "(c - 1 \<noteq> 0) = (c \<noteq> 1)" for c :: u64
    by auto
  show ?thesis
    by (simp add: Let_def delete_Inr [OF ok] bh one calls_since_def mdt_delete_block_trace
        released_trace released_outcome put_events_def)
qed

theorem reclamation_follows_release_witness:
  "fst (nilfs_atime_get_block 5 10 (filled 5 11 boot)) = Inr \<lparr>b_inode = 5, b_blocknr = 0\<rparr>
   \<and> count (header (block_view (filled 5 11 boot) 5 0)) = 1
   \<and> calls_since (filled 5 11 boot)
         (snd (nilfs_atime_delete_inode_entry 5 11 (filled 5 11 boot))) =
       [Down_write 5, Mdt_get_block 5 0 None, Kmap \<lparr>b_inode = 5, b_blocknr = 0\<rparr>,
        Mark_buffer_dirty \<lparr>b_inode = 5, b_blocknr = 0\<rparr>, Mdt_mark_dirty 5, Up_write 5,
        Kunmap \<lparr>b_inode = 5, b_blocknr = 0\<rparr>, Brelse \<lparr>b_inode = 5, b_blocknr = 0\<rparr>,
        Mdt_delete_block 5 0 None]
   \<and> fst (nilfs_atime_get_block 5 10 boot) = Inr \<lparr>b_inode = 5, b_blocknr = 0\<rparr>
   \<and> count (header (block_view boot 5 0)) - 1 \<noteq> 0
   \<and> calls_since boot (snd (nilfs_atime_delete_inode_entry 5 11 boot)) =
       [Down_write 5, Mdt_get_block 5 0 None, Kmap \<lparr>b_inode = 5, b_blocknr = 0\<rparr>,
        Mark_buffer_dirty \<lparr>b_inode = 5, b_blocknr = 0\<rparr>, Mdt_mark_dirty 5, Up_write 5,
        Kunmap \<lparr>b_inode = 5, b_blocknr = 0\<rparr>, Brelse \<lparr>b_inode = 5, b_blocknr = 0\<rparr>]"
proof -
  have o: "fst (next_outcome (filled 5 11 boot)) = None" "outcome 1 (filled 5 11 boot) = None"
    by (simp_all add: next_outcome_def outcome_def boot_filled)
  have g1: "fst (nilfs_atime_get_block 5 10 (filled 5 11 boot))
              = Inr \<lparr>b_inode = 5, b_blocknr = 0\<rparr>"
    by (simp add: get_block_Inr o block_numbers)
  have g2: "fst (nilfs_atime_get_block 5 10 boot) = Inr \<lparr>b_inode = 5, b_blocknr = 0\<rparr>"
    by (simp add: get_block_Inr boot_outcome block_numbers)
  show ?thesis
    using reclamation_follows_release
        [of 5 "filled 5 11 boot" 11 "\<lparr>b_inode = 5, b_blocknr = 0\<rparr>"]
      reclamation_follows_release [of 5 boot 11 "\<lparr>b_inode = 5, b_blocknr = 0\<rparr>"] g1 g2
    by (simp add: boot_filled boot_simps block_numbers boot_view o get_events_def Let_def
        outcome_def)
qed

text \<open>
  C10. Whenever the acquisition succeeds, \<^verbatim>\<open>nilfs_atime_delete_inode_entry\<close>
  returns 0, whatever the backing layer answers to the reclamation request. In
  particular, when the counter stood at 1 and the backing layer refuses the reclamation
  with an error, \<^verbatim>\<open>nilfs_mdt_delete_block\<close> yields that error, it is the last call
  made, the block stays mapped with a counter of 0, and the caller still gets 0.
\<close>

theorem delete_discards_reclamation_result:
  assumes "fst (nilfs_atime_get_block atimefile (i_ino (inodes s inode)) s) = Inr bh"
  shows "let bn = nilfs_atime_get_block_number (i_ino (inodes s inode));
             s' = snd (nilfs_atime_delete_inode_entry atimefile inode s)
         in fst (nilfs_atime_delete_inode_entry atimefile inode s) = Inr ()
          \<and> retval (fst (nilfs_atime_delete_inode_entry atimefile inode s)) = 0
          \<and> (count (header (block_view s atimefile bn)) = 1 \<and> outcome 1 s = Some e \<longrightarrow>
               fst (nilfs_mdt_delete_block atimefile bn (released atimefile inode s)) = Inl e
               \<and> last (trace s') = Mdt_delete_block atimefile bn (Some e)
               \<and> bn \<in> mapped (mdt s' atimefile)
               \<and> count (header (data (mdt s' atimefile) bn)) = 0)"
proof -
  have ok: "fst (next_outcome s) = None"
    using assms by (rule get_block_Inr_outcome)
  show ?thesis
    by (simp add: Let_def delete_Inr [OF ok] mdt_delete_block_trace mdt_delete_block_result
        mdt_delete_block_mdt released_outcome released_mdt block_after_delete_def)
qed

theorem delete_discards_reclamation_result_witness:
  "fst (nilfs_atime_get_block 5 10 ((filled 5 11 boot)\<lparr>backing := [None, Some EIO]\<rparr>))
     = Inr \<lparr>b_inode = 5, b_blocknr = 0\<rparr>
   \<and> count (header (block_view ((filled 5 11 boot)\<lparr>backing := [None, Some EIO]\<rparr>) 5 0)) = 1
   \<and> outcome 1 ((filled 5 11 boot)\<lparr>backing := [None, Some EIO]\<rparr>) = Some EIO
   \<and> fst (nilfs_atime_delete_inode_entry 5 11
              ((filled 5 11 boot)\<lparr>backing := [None, Some EIO]\<rparr>)) = Inr ()
   \<and> last (trace (snd (nilfs_atime_delete_inode_entry 5 11
              ((filled 5 11 boot)\<lparr>backing := [None, Some EIO]\<rparr>))))
       = Mdt_delete_block 5 0 (Some EIO)"
proof -
  have o: "fst (next_outcome ((filled 5 11 boot)\<lparr>backing := [None, Some EIO]\<rparr>)) = None"
    "outcome 1 ((filled 5 11 boot)\<lparr>backing := [None, Some EIO]\<rparr>) = Some EIO"
    by (simp_all add: next_outcome_def outcome_def)
  have g: "fst (nilfs_atime_get_block 5 10
                  ((filled 5 11 boot)\<lparr>backing := [None, Some EIO]\<rparr>))
             = Inr \<lparr>b_inode = 5, b_blocknr = 0\<rparr>"
    by (simp add: get_block_Inr o block_numbers)
  show ?thesis
    using delete_discards_reclamation_result
      [of 5 "(filled 5 11 boot)\<lparr>backing := [None, Some EIO]\<rparr>" 11
          "\<lparr>b_inode = 5, b_blocknr = 0\<rparr>" EIO] g o
    by (simp add: boot_filled block_numbers Let_def)
qed

lemma view_acquired:
  assumes "mdt t = (mdt s)(af := \<lparr>mapped = insert bn (mapped (mdt s af)),
                                   data = (data (mdt s af))(bn := b)\<rparr>)"
  shows "block_view t f n = (if f = af \<and> n = bn then b else block_view s f n)"
  using assms by (auto simp add: block_view_def)

lemma acquired_same:
  assumes "bn \<in> mapped (mdt s af)"
  shows "(mdt s)(af := \<lparr>mapped = insert bn (mapped (mdt s af)),
                         data = (data (mdt s af))(bn := data (mdt s af) bn)\<rparr>) = mdt s"
proof -
  have "\<lparr>mapped = insert bn (mapped (mdt s af)),
         data = (data (mdt s af))(bn := data (mdt s af) bn)\<rparr> = mdt s af"
    using assms by (cases "mdt s af") (simp add: insert_absorb)
  then show ?thesis by simp
qed

lemma filled_mdt:
  "mdt (filled af p s) =
     (mdt s)(af := \<lparr>mapped = insert (nilfs_atime_get_block_number (i_ino (inodes s p)))
                                 (mapped (mdt s af)),
                     data = (data (mdt s af))
                       (nilfs_atime_get_block_number (i_ino (inodes s p)) :=
                          block_after_fill
                            (block_view s af (nilfs_atime_get_block_number (i_ino (inodes s p))))
                            (nilfs_atime_get_entry_in_block (i_ino (inodes s p)))
                            (i_mtime (inodes s p)))\<rparr>)"
  by (simp add: filled_def Let_def acquire_def)

lemma filled_inodes:
  "inodes (filled af p s) =
     (inodes s)(p := (inodes s p)
        \<lparr>i_atime := entries
           (block_after_fill
              (block_view s af (nilfs_atime_get_block_number (i_ino (inodes s p))))
              (nilfs_atime_get_entry_in_block (i_ino (inodes s p)))
              (i_mtime (inodes s p)))
           (nilfs_atime_get_entry_in_block (i_ino (inodes s p)))\<rparr>)"
  by (simp add: filled_def Let_def acquire_def)

lemma filled_view:
  "block_view (filled af p s) f n =
     (if f = af \<and> n = nilfs_atime_get_block_number (i_ino (inodes s p))
      then block_after_fill
             (block_view s af (nilfs_atime_get_block_number (i_ino (inodes s p))))
             (nilfs_atime_get_entry_in_block (i_ino (inodes s p)))
             (i_mtime (inodes s p))
      else block_view s f n)"
  by (rule view_acquired) (rule filled_mdt)

lemma released_view:
  "block_view (released af p s) f n =
     (if f = af \<and> n = nilfs_atime_get_block_number (i_ino (inodes s p))
      then block_after_delete
             (block_view s af (nilfs_atime_get_block_number (i_ino (inodes s p))))
             (nilfs_atime_get_entry_in_block (i_ino (inodes s p)))
      else block_view s f n)"
  by (rule view_acquired) (rule released_mdt)

lemma invalid_view_unmapped:
  "bn \<notin> mapped (mdt s af) \<Longrightarrow> invalid (entries (block_view s af bn) i)"
  by (simp add: block_view_def nilfs_atime_block_init_def invalid_def)

lemma block_after_fill_valid:
  "\<not> invalid (entries b i) \<Longrightarrow> block_after_fill b i t = b"
  by (auto simp add: block_after_fill_def invalid_def)

lemma block_after_fill_invalid:
  "invalid (entries b i) \<Longrightarrow>
     block_after_fill b i t =
       b\<lparr>entries := (entries b)(i := t), header := (header b)\<lparr>count := count (header b) + 1\<rparr>\<rparr>"
  by (auto simp add: block_after_fill_def invalid_def)

lemma fill_valid_mdt:
  assumes "\<not> invalid (entries (block_view s af (nilfs_atime_get_block_number (i_ino (inodes s p))))
                        (nilfs_atime_get_entry_in_block (i_ino (inodes s p))))"
  shows "mdt (filled af p s) = mdt s"
proof -
  let ?bn = "nilfs_atime_get_block_number (i_ino (inodes s p))"
  have m: "?bn \<in> mapped (mdt s af)"
    using assms invalid_view_unmapped by blast
  then have v: "block_view s af ?bn = data (mdt s af) ?bn"
    by (simp add: block_view_def)
  have "block_after_fill (block_view s af ?bn)
          (nilfs_atime_get_entry_in_block (i_ino (inodes s p))) (i_mtime (inodes s p))
        = data (mdt s af) ?bn"
    using assms by (simp add: block_after_fill_valid v)
  then show ?thesis
    using acquired_same [OF m] by (simp add: filled_mdt)
qed

subsection \<open>Filling an inode\<close>

text \<open>
  C2. For an inode other than the atime file itself and a successful acquisition,
  \<^verbatim>\<open>nilfs_atime_fill_inode\<close> returns 0 and: when the entry in the inode's slot is
  invalid (0,0), the block afterwards is the block before with \<^verbatim>\<open>i_mtime\<close> in the
  slot and the counter incremented by one, and \<^verbatim>\<open>i_atime\<close> becomes
  \<^verbatim>\<open>i_mtime\<close>; when the entry is valid, no block of any file changes and
  \<^verbatim>\<open>i_atime\<close> becomes the entry. Hence, once the first fill has left a valid time
  in \<^verbatim>\<open>i_atime\<close>, a second fill for the same inode number (through any inode
  \<open>inode2\<close>, whatever its \<^verbatim>\<open>i_mtime\<close>) changes no block and yields that same
  time.
\<close>

theorem fill_inode_entry:
  assumes "atimefile \<noteq> inode"
    and "fst (nilfs_atime_get_block atimefile (i_ino (inodes s inode)) s) = Inr bh"
  shows "let bn = nilfs_atime_get_block_number (i_ino (inodes s inode));
             i = nilfs_atime_get_entry_in_block (i_ino (inodes s inode));
             old = block_view s atimefile bn;
             s' = snd (nilfs_atime_fill_inode (Some atimefile) inode s)
         in fst (nilfs_atime_fill_inode (Some atimefile) inode s) = Inr ()
          \<and> (invalid (entries old i) \<longrightarrow>
               block_view s' atimefile bn =
                 old\<lparr>entries := (entries old)(i := i_mtime (inodes s inode)),
                     header := (header old)\<lparr>count := count (header old) + 1\<rparr>\<rparr>
               \<and> i_atime (inodes s' inode) = i_mtime (inodes s inode))
          \<and> (\<not> invalid (entries old i) \<longrightarrow>
               mdt s' = mdt s \<and> i_atime (inodes s' inode) = entries old i)
          \<and> (atimefile \<noteq> inode2
               \<and> i_ino (inodes s' inode2) = i_ino (inodes s inode)
               \<and> \<not> invalid (i_atime (inodes s' inode))
               \<and> fst (nilfs_atime_get_block atimefile (i_ino (inodes s' inode2)) s') = Inr bh2
               \<longrightarrow>
               fst (nilfs_atime_fill_inode (Some atimefile) inode2 s') = Inr ()
               \<and> mdt (snd (nilfs_atime_fill_inode (Some atimefile) inode2 s')) = mdt s'
               \<and> i_atime (inodes (snd (nilfs_atime_fill_inode (Some atimefile) inode2 s'))
                           inode2)
                   = i_atime (inodes s' inode))"
proof -
  let ?bn = "nilfs_atime_get_block_number (i_ino (inodes s inode))"
  let ?i = "nilfs_atime_get_entry_in_block (i_ino (inodes s inode))"
  let ?s' = "filled atimefile inode s"
  have ok: "fst (next_outcome s) = None"
    using assms(2) by (rule get_block_Inr_outcome)
  have f: "nilfs_atime_fill_inode (Some atimefile) inode s = (Inr (), ?s')"
    using assms(1) ok by (rule fill_inode_Inr)
  have absent: "invalid (entries (block_view s atimefile ?bn) ?i) \<longrightarrow>
      block_view ?s' atimefile ?bn =
        (block_view s atimefile ?bn)
          \<lparr>entries := (entries (block_view s atimefile ?bn))(?i := i_mtime (inodes s inode)),
           header := (header (block_view s atimefile ?bn))
                       \<lparr>count := count (header (block_view s atimefile ?bn)) + 1\<rparr>\<rparr>
      \<and> i_atime (inodes ?s' inode) = i_mtime (inodes s inode)"
    by (simp add: filled_view filled_inodes block_after_fill_invalid)
  have present: "\<not> invalid (entries (block_view s atimefile ?bn) ?i) \<longrightarrow>
      mdt ?s' = mdt s \<and> i_atime (inodes ?s' inode) = entries (block_view s atimefile ?bn) ?i"
    by (simp add: fill_valid_mdt filled_inodes block_after_fill_valid)
  have slot: "entries (block_view ?s' atimefile ?bn) ?i = i_atime (inodes ?s' inode)"
    by (simp add: filled_view filled_inodes)
  have second: "atimefile \<noteq> inode2
      \<and> i_ino (inodes ?s' inode2) = i_ino (inodes s inode)
      \<and> \<not> invalid (i_atime (inodes ?s' inode))
      \<and> fst (nilfs_atime_get_block atimefile (i_ino (inodes ?s' inode2)) ?s') = Inr bh2
      \<longrightarrow>
      fst (nilfs_atime_fill_inode (Some atimefile) inode2 ?s') = Inr ()
      \<and> mdt (snd (nilfs_atime_fill_inode (Some atimefile) inode2 ?s')) = mdt ?s'
      \<and> i_atime (inodes (snd (nilfs_atime_fill_inode (Some atimefile) inode2 ?s')) inode2)
          = i_atime (inodes ?s' inode)"
  proof (intro impI, elim conjE)
    assume ne: "atimefile \<noteq> inode2"
      and ino: "i_ino (inodes ?s' inode2) = i_ino (inodes s inode)"
      and valid: "\<not> invalid (i_atime (inodes ?s' inode))"
      and acq: "fst (nilfs_atime_get_block atimefile (i_ino (inodes ?s' inode2)) ?s') = Inr bh2"
    have ok2: "fst (next_outcome ?s') = None"
      using acq by (rule get_block_Inr_outcome)
    have f2: "nilfs_atime_fill_inode (Some atimefile) inode2 ?s' = (Inr (), filled atimefile inode2 ?s')"
      using ne ok2 by (rule fill_inode_Inr)
    have v: "\<not> invalid (entries (block_view ?s' atimefile
                  (nilfs_atime_get_block_number (i_ino (inodes ?s' inode2))))
                (nilfs_atime_get_entry_in_block (i_ino (inodes ?s' inode2))))"
      using valid slot by (simp add: ino)
    have "mdt (filled atimefile inode2 ?s') = mdt ?s'"
      using v by (rule fill_valid_mdt)
    moreover have "i_atime (inodes (filled atimefile inode2 ?s') inode2) = i_atime (inodes ?s' inode)"
      using v slot
      by (simp add: filled_inodes [of atimefile inode2 ?s'] block_after_fill_valid ino)
    ultimately show "fst (nilfs_atime_fill_inode (Some atimefile) inode2 ?s') = Inr ()
      \<and> mdt (snd (nilfs_atime_fill_inode (Some atimefile) inode2 ?s')) = mdt ?s'
      \<and> i_atime (inodes (snd (nilfs_atime_fill_inode (Some atimefile) inode2 ?s')) inode2)
          = i_atime (inodes ?s' inode)"
      by (simp add: f2)
  qed
  show ?thesis
    unfolding Let_def f fst_conv snd_conv
    using absent present second by blast
qed


theorem fill_inode_entry_witness:
  "(5::nat) \<noteq> 11
   \<and> fst (nilfs_atime_get_block 5 10 boot) = Inr \<lparr>b_inode = 5, b_blocknr = 0\<rparr>
   \<and> invalid (entries (block_view boot 5 0) 10)
   \<and> fst (nilfs_atime_fill_inode (Some 5) 11 boot) = Inr ()
   \<and> block_view (snd (nilfs_atime_fill_inode (Some 5) 11 boot)) 5 0 =
       \<lparr>header = \<lparr>count = 1\<rparr>,
        entries = (\<lambda>_. \<lparr>tv_sec = 0, tv_nsec = 0\<rparr>)(10 := \<lparr>tv_sec = 1000, tv_nsec = 0\<rparr>)\<rparr>
   \<and> i_atime (inodes (snd (nilfs_atime_fill_inode (Some 5) 11 boot)) 11)
       = \<lparr>tv_sec = 1000, tv_nsec = 0\<rparr>
   \<and> (5::nat) \<noteq> 12
   \<and> i_mtime (inodes (snd (nilfs_atime_fill_inode (Some 5) 11 boot)) 12)
       = \<lparr>tv_sec = 2000, tv_nsec = 0\<rparr>
   \<and> fst (nilfs_atime_get_block 5 10 (snd (nilfs_atime_fill_inode (Some 5) 11 boot)))
       = Inr \<lparr>b_inode = 5, b_blocknr = 0\<rparr>
   \<and> fst (nilfs_atime_fill_inode (Some 5) 12 (snd (nilfs_atime_fill_inode (Some 5) 11 boot)))
       = Inr ()
   \<and> mdt (snd (nilfs_atime_fill_inode (Some 5) 12
                 (snd (nilfs_atime_fill_inode (Some 5) 11 boot))))
       = mdt (snd (nilfs_atime_fill_inode (Some 5) 11 boot))
   \<and> i_atime (inodes (snd (nilfs_atime_fill_inode (Some 5) 12
                 (snd (nilfs_atime_fill_inode (Some 5) 11 boot)))) 12)
       = \<lparr>tv_sec = 1000, tv_nsec = 0\<rparr>"
proof -
  have o: "fst (next_outcome (filled 5 11 boot)) = None"
    by (simp add: next_outcome_def boot_filled)
  have g1: "fst (nilfs_atime_get_block 5 10 boot) = Inr \<lparr>b_inode = 5, b_blocknr = 0\<rparr>"
    by (simp add: get_block_Inr boot_outcome block_numbers)
  have g2: "fst (nilfs_atime_get_block 5 10 (filled 5 11 boot))
              = Inr \<lparr>b_inode = 5, b_blocknr = 0\<rparr>"
    by (simp add: get_block_Inr o block_numbers)
  show ?thesis
    using fill_inode_entry
        [of 5 11 boot "\<lparr>b_inode = 5, b_blocknr = 0\<rparr>" 12 "\<lparr>b_inode = 5, b_blocknr = 0\<rparr>"]
      g1 g2
    by (simp add: boot_filled boot_simps block_numbers boot_view Let_def invalid_def)
qed

lemma reclaimed_view:
  "block_view (snd (nilfs_mdt_delete_block af bn t)) f n =
     (if f = af \<and> n = bn \<and> fst (next_outcome t) = None
      then nilfs_atime_block_init (data (mdt t af) bn)
      else block_view t f n)"
  by (auto simp add: block_view_def mdt_delete_block_mdt split: option.splits)

lemma delete_view:
  assumes "fst (next_outcome s) = None"
  shows "entries (block_view (snd (nilfs_atime_delete_inode_entry af p s)) af
                    (nilfs_atime_get_block_number (i_ino (inodes s p))))
           (nilfs_atime_get_entry_in_block (i_ino (inodes s p)))
         = \<lparr>tv_sec = 0, tv_nsec = 0\<rparr>"
    and "count (header (block_view (snd (nilfs_atime_delete_inode_entry af p s)) af
                          (nilfs_atime_get_block_number (i_ino (inodes s p)))))
         = count (header (block_view s af (nilfs_atime_get_block_number (i_ino (inodes s p))))) - 1"
  by (simp_all add: delete_Inr [OF assms] reclaimed_view released_view block_after_delete_def
      nilfs_atime_block_init_def)

lemma delete_view_other:
  assumes "f \<noteq> af \<or> n \<noteq> nilfs_atime_get_block_number (i_ino (inodes s p))"
  shows "block_view (snd (nilfs_atime_delete_inode_entry af p s)) f n = block_view s f n"
proof (cases "fst (next_outcome s)")
  case None
  then show ?thesis
    using assms by (auto simp add: delete_Inr reclaimed_view released_view)
next
  case (Some e)
  then show ?thesis
    by (simp add: delete_Inl refused_def block_view_def)
qed

lemma delete_inodes: "inodes (snd (nilfs_atime_delete_inode_entry af p s)) = inodes s"
proof (cases "fst (next_outcome s)")
  case None
  then show ?thesis
    by (simp add: delete_Inr mdt_delete_block_inodes released_inodes)
next
  case (Some e)
  then show ?thesis
    by (simp add: delete_Inl refused_frame)
qed

subsection \<open>Deleting an entry\<close>

text \<open>
  C6. For an inode other than the atime file itself, after a fill whose acquisition
  succeeded the slot of the inode number holds the time the fill reported; a delete that
  follows (its acquisition succeeding too) returns 0, leaves (0,0) in that slot and a
  counter one less than the counter the fill left, modulo \<open>2 ^ 64\<close>, and one less as
  a number whenever the counter the fill left is not 0. Slot and counter are read as the
  next acquisition finds them, since the block may have been reclaimed.
\<close>

theorem delete_after_fill:
  assumes "atimefile \<noteq> inode"
    and "fst (nilfs_atime_get_block atimefile (i_ino (inodes s inode)) s) = Inr bh"
    and "fst (nilfs_atime_get_block atimefile (i_ino (inodes s inode))
                (snd (nilfs_atime_fill_inode (Some atimefile) inode s))) = Inr bh'"
  shows "let bn = nilfs_atime_get_block_number (i_ino (inodes s inode));
             i = nilfs_atime_get_entry_in_block (i_ino (inodes s inode));
             s1 = snd (nilfs_atime_fill_inode (Some atimefile) inode s);
             s2 = snd (nilfs_atime_delete_inode_entry atimefile inode s1)
         in fst (nilfs_atime_fill_inode (Some atimefile) inode s) = Inr ()
          \<and> entries (block_view s1 atimefile bn) i = i_atime (inodes s1 inode)
          \<and> fst (nilfs_atime_delete_inode_entry atimefile inode s1) = Inr ()
          \<and> entries (block_view s2 atimefile bn) i = \<lparr>tv_sec = 0, tv_nsec = 0\<rparr>
          \<and> count (header (block_view s2 atimefile bn))
              = count (header (block_view s1 atimefile bn)) - 1
          \<and> (count (header (block_view s1 atimefile bn)) \<noteq> 0 \<longrightarrow>
               unat (count (header (block_view s2 atimefile bn))) + 1
                 = unat (count (header (block_view s1 atimefile bn))))"
proof -
  let ?s1 = "filled atimefile inode s"
  have ok: "fst (next_outcome s) = None"
    using assms(2) by (rule get_block_Inr_outcome)
  have f: "nilfs_atime_fill_inode (Some atimefile) inode s = (Inr (), ?s1)"
    using assms(1) ok by (rule fill_inode_Inr)
  have ino: "i_ino (inodes ?s1 inode) = i_ino (inodes s inode)"
    by (simp add: filled_inodes)
  have ok1: "fst (next_outcome ?s1) = None"
    using assms(3) unfolding f snd_conv by (rule get_block_Inr_outcome)
  have d: "fst (nilfs_atime_delete_inode_entry atimefile inode ?s1) = Inr ()"
    by (simp add: delete_Inr [OF ok1])
  have dec: "c \<noteq> 0 \<longrightarrow> unat (c - 1) + 1 = unat c" for c :: u64
    by (metis unat_minus_one Suc_eq_plus1 Suc_pred' unat_gt_0)
  show ?thesis
    unfolding Let_def f fst_conv snd_conv
    using delete_view [OF ok1, of atimefile inode] d dec
    by (simp add: ino filled_view filled_inodes)
qed


theorem delete_after_fill_witness:
  "(5::nat) \<noteq> 11
   \<and> fst (nilfs_atime_get_block 5 10 boot) = Inr \<lparr>b_inode = 5, b_blocknr = 0\<rparr>
   \<and> fst (nilfs_atime_get_block 5 10 (snd (nilfs_atime_fill_inode (Some 5) 11 boot)))
       = Inr \<lparr>b_inode = 5, b_blocknr = 0\<rparr>
   \<and> entries (block_view (snd (nilfs_atime_fill_inode (Some 5) 11 boot)) 5 0) 10
       = \<lparr>tv_sec = 1000, tv_nsec = 0\<rparr>
   \<and> count (header (block_view (snd (nilfs_atime_fill_inode (Some 5) 11 boot)) 5 0)) = 1
   \<and> fst (nilfs_atime_delete_inode_entry 5 11 (snd (nilfs_atime_fill_inode (Some 5) 11 boot)))
       = Inr ()
   \<and> entries (block_view (snd (nilfs_atime_delete_inode_entry 5 11
                 (snd (nilfs_atime_fill_inode (Some 5) 11 boot)))) 5 0) 10
       = \<lparr>tv_sec = 0, tv_nsec = 0\<rparr>
   \<and> count (header (block_view (snd (nilfs_atime_delete_inode_entry 5 11
                 (snd (nilfs_atime_fill_inode (Some 5) 11 boot)))) 5 0)) = 0"
proof -
  have o: "fst (next_outcome (filled 5 11 boot)) = None"
    by (simp add: next_outcome_def boot_filled)
  have g1: "fst (nilfs_atime_get_block 5 10 boot) = Inr \<lparr>b_inode = 5, b_blocknr = 0\<rparr>"
    by (simp add: get_block_Inr boot_outcome block_numbers)
  have g2: "fst (nilfs_atime_get_block 5 10 (filled 5 11 boot))
              = Inr \<lparr>b_inode = 5, b_blocknr = 0\<rparr>"
    by (simp add: get_block_Inr o block_numbers)
  show ?thesis
    using delete_after_fill
        [of 5 11 boot "\<lparr>b_inode = 5, b_blocknr = 0\<rparr>" "\<lparr>b_inode = 5, b_blocknr = 0\<rparr>"]
      g1 g2
    by (simp add: boot_filled boot_simps block_numbers Let_def)
qed

text \<open>
  C5. Two deletes on the same inode with nothing in between, both acquisitions
  succeeding: each returns 0 and each leaves the counter one less than it found it,
  modulo \<open>2 ^ 64\<close>. When the first delete found the counter at 1 it leaves it at 0;
  and when the second delete finds the counter at 0 it leaves it at \<open>2 ^ 64 - 1\<close>,
  with the block mapped and released and no reclamation requested. The only errors of
  the model are EIO and ENOMEM: the code has no check of the counter.
\<close>

theorem double_delete_wraps:
  assumes "fst (nilfs_atime_get_block atimefile (i_ino (inodes s inode)) s) = Inr bh"
    and "fst (nilfs_atime_get_block atimefile (i_ino (inodes s inode))
                (snd (nilfs_atime_delete_inode_entry atimefile inode s))) = Inr bh'"
  shows "let bn = nilfs_atime_get_block_number (i_ino (inodes s inode));
             s1 = snd (nilfs_atime_delete_inode_entry atimefile inode s);
             s2 = snd (nilfs_atime_delete_inode_entry atimefile inode s1)
         in fst (nilfs_atime_delete_inode_entry atimefile inode s) = Inr ()
          \<and> fst (nilfs_atime_delete_inode_entry atimefile inode s1) = Inr ()
          \<and> retval (fst (nilfs_atime_delete_inode_entry atimefile inode s1)) = 0
          \<and> count (header (block_view s1 atimefile bn))
              = count (header (block_view s atimefile bn)) - 1
          \<and> count (header (block_view s2 atimefile bn))
              = count (header (block_view s1 atimefile bn)) - 1
          \<and> (count (header (block_view s atimefile bn)) = 1 \<longrightarrow>
               count (header (block_view s1 atimefile bn)) = 0)
          \<and> (count (header (block_view s1 atimefile bn)) = 0 \<longrightarrow>
               unat (count (header (block_view s2 atimefile bn))) = 2 ^ 64 - 1
               \<and> bn \<in> mapped (mdt s2 atimefile)
               \<and> calls_since s1 s2 = get_events atimefile bn @ put_events atimefile bn)"
proof -
  let ?bn = "nilfs_atime_get_block_number (i_ino (inodes s inode))"
  let ?s1 = "snd (nilfs_atime_delete_inode_entry atimefile inode s)"
  let ?s2 = "snd (nilfs_atime_delete_inode_entry atimefile inode ?s1)"
  have ok: "fst (next_outcome s) = None"
    using assms(1) by (rule get_block_Inr_outcome)
  have ok1: "fst (next_outcome ?s1) = None"
    using assms(2) by (rule get_block_Inr_outcome)
  have ino: "i_ino (inodes ?s1 inode) = i_ino (inodes s inode)"
    by (simp add: delete_inodes)
  have r1: "fst (nilfs_atime_delete_inode_entry atimefile inode s) = Inr ()"
    by (simp add: delete_Inr [OF ok])
  have r2: "fst (nilfs_atime_delete_inode_entry atimefile inode ?s1) = Inr ()"
    by (simp add: delete_Inr [OF ok1])
  have c1: "count (header (block_view ?s1 atimefile ?bn))
              = count (header (block_view s atimefile ?bn)) - 1"
    by (rule delete_view(2) [OF ok])
  have c2: "count (header (block_view ?s2 atimefile ?bn))
              = count (header (block_view ?s1 atimefile ?bn)) - 1"
    using delete_view(2) [OF ok1, of atimefile inode] by (simp add: ino)
  have zero: "count (header (block_view ?s1 atimefile ?bn)) = 0 \<longrightarrow>
      unat (count (header (block_view ?s2 atimefile ?bn))) = 2 ^ 64 - 1
      \<and> ?bn \<in> mapped (mdt ?s2 atimefile)
      \<and> calls_since ?s1 ?s2 = get_events atimefile ?bn @ put_events atimefile ?bn"
  proof
    assume z: "count (header (block_view ?s1 atimefile ?bn)) = 0"
    have d2: "nilfs_atime_delete_inode_entry atimefile inode ?s1
                = (Inr (), released atimefile inode ?s1)"
      using z by (simp add: delete_Inr [OF ok1] ino)
    have u: "unat (count (header (block_view ?s2 atimefile ?bn))) = 2 ^ 64 - 1"
      using c2 z by (simp add: unsigned_minus_1_eq_mask mask_eq_exp_minus_1)
    have m: "?bn \<in> mapped (mdt (released atimefile inode ?s1) atimefile)"
      by (simp add: released_mdt ino)
    have calls: "calls_since ?s1 (released atimefile inode ?s1)
                   = get_events atimefile ?bn @ put_events atimefile ?bn"
      by (simp add: calls_since_def released_trace ino)
    show "unat (count (header (block_view ?s2 atimefile ?bn))) = 2 ^ 64 - 1
      \<and> ?bn \<in> mapped (mdt ?s2 atimefile)
      \<and> calls_since ?s1 ?s2 = get_events atimefile ?bn @ put_events atimefile ?bn"
      using u m calls by (simp add: d2)
  qed
  have one: "count (header (block_view s atimefile ?bn)) = 1 \<longrightarrow>
      count (header (block_view ?s1 atimefile ?bn)) = 0"
    using c1 by simp
  have rv: "retval (fst (nilfs_atime_delete_inode_entry atimefile inode ?s1)) = 0"
    by (simp add: r2)
  show ?thesis
    unfolding Let_def using r1 r2 rv c1 c2 one zero by blast
qed

lemma mdt_delete_block_backing:
  "backing (snd (nilfs_mdt_delete_block af bn s)) = tl (backing s)"
  by (cases s)
     (auto simp: nilfs_mdt_delete_block_def next_outcome_def log_def
       split: list.splits option.splits)

lemma delete_backing_Nil:
  assumes "backing s = []"
  shows "backing (snd (nilfs_atime_delete_inode_entry af p s)) = []"
proof -
  have ok: "fst (next_outcome s) = None"
    using assms by (simp add: next_outcome_def)
  show ?thesis
    using assms
    by (simp add: delete_Inr [OF ok] mdt_delete_block_backing released_def Let_def acquire_def)
qed

theorem double_delete_wraps_witness:
  "fst (nilfs_atime_get_block 5 10 (filled 5 11 boot)) = Inr \<lparr>b_inode = 5, b_blocknr = 0\<rparr>
   \<and> count (header (block_view (filled 5 11 boot) 5 0)) = 1
   \<and> fst (nilfs_atime_get_block 5 10
             (snd (nilfs_atime_delete_inode_entry 5 11 (filled 5 11 boot))))
       = Inr \<lparr>b_inode = 5, b_blocknr = 0\<rparr>
   \<and> count (header (block_view
         (snd (nilfs_atime_delete_inode_entry 5 11 (filled 5 11 boot))) 5 0)) = 0
   \<and> fst (nilfs_atime_delete_inode_entry 5 11
             (snd (nilfs_atime_delete_inode_entry 5 11 (filled 5 11 boot)))) = Inr ()
   \<and> unat (count (header (block_view
         (snd (nilfs_atime_delete_inode_entry 5 11
            (snd (nilfs_atime_delete_inode_entry 5 11 (filled 5 11 boot))))) 5 0)))
       = 18446744073709551615"
proof -
  have o: "fst (next_outcome (filled 5 11 boot)) = None"
    by (simp add: next_outcome_def boot_filled)
  have o1: "fst (next_outcome (snd (nilfs_atime_delete_inode_entry 5 11 (filled 5 11 boot))))
              = None"
    by (simp add: next_outcome_def delete_backing_Nil boot_filled)
  have g1: "fst (nilfs_atime_get_block 5 10 (filled 5 11 boot))
              = Inr \<lparr>b_inode = 5, b_blocknr = 0\<rparr>"
    by (simp add: get_block_Inr o block_numbers)
  have g2: "fst (nilfs_atime_get_block 5 10
                   (snd (nilfs_atime_delete_inode_entry 5 11 (filled 5 11 boot))))
              = Inr \<lparr>b_inode = 5, b_blocknr = 0\<rparr>"
    by (simp add: get_block_Inr o1 block_numbers)
  have c: "count (header (block_view (filled 5 11 boot) 5 0)) = 1"
    by (simp add: boot_filled)
  have "count (header (block_view
            (snd (nilfs_atime_delete_inode_entry 5 11 (filled 5 11 boot))) 5 0)) = 0
        \<and> fst (nilfs_atime_delete_inode_entry 5 11
              (snd (nilfs_atime_delete_inode_entry 5 11 (filled 5 11 boot)))) = Inr ()
        \<and> unat (count (header (block_view
              (snd (nilfs_atime_delete_inode_entry 5 11
                 (snd (nilfs_atime_delete_inode_entry 5 11 (filled 5 11 boot))))) 5 0)))
            = 2 ^ 64 - 1"
    using double_delete_wraps
        [of 5 "filled 5 11 boot" 11 "\<lparr>b_inode = 5, b_blocknr = 0\<rparr>"
            "\<lparr>b_inode = 5, b_blocknr = 0\<rparr>"]
      g1 g2 c
    by (simp add: boot_filled block_numbers Let_def unsigned_minus_1_eq_mask
        mask_eq_exp_minus_1)
  then show ?thesis
    using g1 g2 c by simp
qed

lemma refused_mdt: "mdt (refused af n e s) = mdt s"
  by (simp add: refused_def)

lemma updated_mdt:
  "mdt (updated af p s) =
     (mdt s)(af := \<lparr>mapped = insert (nilfs_atime_get_block_number (i_ino (inodes s p)))
                                 (mapped (mdt s af)),
                     data = (data (mdt s af))
                       (nilfs_atime_get_block_number (i_ino (inodes s p)) :=
                          (block_view s af (nilfs_atime_get_block_number (i_ino (inodes s p))))
                            \<lparr>entries :=
                               (entries (block_view s af
                                  (nilfs_atime_get_block_number (i_ino (inodes s p)))))
                               (nilfs_atime_get_entry_in_block (i_ino (inodes s p))
                                  := i_atime (inodes s p))\<rparr>)\<rparr>)"
  by (simp add: updated_def Let_def acquire_def)

lemma acquired_frame:
  assumes "mdt t = (mdt s)(af := \<lparr>mapped = insert bn (mapped (mdt s af)),
                                   data = (data (mdt s af))(bn := x)\<rparr>)"
    and "f \<noteq> af \<or> b \<noteq> bn"
  shows "data (mdt t f) b = data (mdt s f) b \<and> (b \<in> mapped (mdt t f)) = (b \<in> mapped (mdt s f))"
  using assms by auto

lemma fill_frame:
  assumes "f \<noteq> af \<or> b \<noteq> nilfs_atime_get_block_number (i_ino (inodes s p))"
  shows "data (mdt (snd (nilfs_atime_fill_inode (Some af) p s)) f) b = data (mdt s f) b
       \<and> (b \<in> mapped (mdt (snd (nilfs_atime_fill_inode (Some af) p s)) f))
           = (b \<in> mapped (mdt s f))"
proof (cases "af = p")
  case True
  then show ?thesis by (simp add: fill_inode_bypass)
next
  case False
  show ?thesis
  proof (cases "fst (next_outcome s)")
    case None
    show ?thesis
      unfolding fill_inode_Inr [OF False None] snd_conv
      using filled_mdt assms by (rule acquired_frame)
  next
    case (Some e)
    show ?thesis
      unfolding fill_inode_Inl [OF False Some] snd_conv by (simp add: refused_mdt)
  qed
qed

lemma update_frame:
  assumes "f \<noteq> af \<or> b \<noteq> nilfs_atime_get_block_number (i_ino (inodes s p))"
  shows "data (mdt (snd (nilfs_atime_update_from_inode af p s)) f) b = data (mdt s f) b
       \<and> (b \<in> mapped (mdt (snd (nilfs_atime_update_from_inode af p s)) f))
           = (b \<in> mapped (mdt s f))"
proof (cases "fst (next_outcome s)")
  case None
  show ?thesis
    unfolding update_Inr [OF None] snd_conv
    using updated_mdt assms by (rule acquired_frame)
next
  case (Some e)
  show ?thesis
    unfolding update_Inl [OF Some] snd_conv by (simp add: refused_mdt)
qed

lemma delete_frame:
  assumes "f \<noteq> af \<or> b \<noteq> nilfs_atime_get_block_number (i_ino (inodes s p))"
  shows "data (mdt (snd (nilfs_atime_delete_inode_entry af p s)) f) b = data (mdt s f) b
       \<and> (b \<in> mapped (mdt (snd (nilfs_atime_delete_inode_entry af p s)) f))
           = (b \<in> mapped (mdt s f))"
proof (cases "fst (next_outcome s)")
  case None
  have r: "data (mdt (released af p s) f) b = data (mdt s f) b
         \<and> (b \<in> mapped (mdt (released af p s) f)) = (b \<in> mapped (mdt s f))"
    using released_mdt assms by (rule acquired_frame)
  show ?thesis
    unfolding delete_Inr [OF None] snd_conv
    using r assms by (auto simp add: mdt_delete_block_mdt split: option.splits)
next
  case (Some e)
  show ?thesis
    unfolding delete_Inl [OF Some] snd_conv by (simp add: refused_mdt)
qed

subsection \<open>Failure of the acquisition\<close>

text \<open>
  C8. Fill, update and delete either fail as a whole or complete as a whole.
  When \<^verbatim>\<open>nilfs_atime_get_block\<close> fails, the error is EIO or ENOMEM (the function
  returns -5 or -12); update and delete, and fill for an inode other than the atime file
  itself, return that same error and end in the state in which the acquisition ended;
  in that state every inode and every block of every file is as before, and the only
  calls made are taking the semaphore, the failed request and releasing the semaphore:
  no buffer was mapped, so none is held. When the acquisition succeeds, each operation
  returns 0 and ends in the state its whole body produces: the slot holds the time the
  operation stores (for fill, the time it reports), a delete has also decremented the
  counter, and the buffer has been unmapped and released after the acquisition's calls.
  Fill for the atime file's own inode acquires nothing and only copies
  \<^verbatim>\<open>i_mtime\<close>.
\<close>

theorem acquisition_failure_propagates:
  "(atimefile = inode \<longrightarrow>
      nilfs_atime_fill_inode (Some atimefile) inode s =
        (Inr (), s\<lparr>inodes := (inodes s)
                      (inode := (inodes s inode)\<lparr>i_atime := i_mtime (inodes s inode)\<rparr>)\<rparr>))
   \<and> (case nilfs_atime_get_block atimefile (i_ino (inodes s inode)) s of
         (Inl e, sf) \<Rightarrow>
           (e = EIO \<or> e = ENOMEM)
           \<and> (retval (Inl e) = - 5 \<or> retval (Inl e) = - 12)
           \<and> (atimefile \<noteq> inode \<longrightarrow>
                nilfs_atime_fill_inode (Some atimefile) inode s = (Inl e, sf))
           \<and> nilfs_atime_update_from_inode atimefile inode s = (Inl e, sf)
           \<and> nilfs_atime_delete_inode_entry atimefile inode s = (Inl e, sf)
           \<and> inodes sf = inodes s \<and> mdt sf = mdt s
           \<and> calls_since s sf =
               [Down_write atimefile,
                Mdt_get_block atimefile
                  (nilfs_atime_get_block_number (i_ino (inodes s inode))) (Some e),
                Up_write atimefile]
       | (Inr bh, sa) \<Rightarrow>
           bh = \<lparr>b_inode = atimefile,
                 b_blocknr = nilfs_atime_get_block_number (i_ino (inodes s inode))\<rparr>
           \<and> (atimefile \<noteq> inode \<longrightarrow>
                nilfs_atime_fill_inode (Some atimefile) inode s
                  = (Inr (), filled atimefile inode s))
           \<and> nilfs_atime_update_from_inode atimefile inode s
               = (Inr (), updated atimefile inode s)
           \<and> nilfs_atime_delete_inode_entry atimefile inode s
               = (Inr (),
                  if count (header (block_view s atimefile
                       (nilfs_atime_get_block_number (i_ino (inodes s inode))))) = 1
                  then snd (nilfs_mdt_delete_block atimefile
                       (nilfs_atime_get_block_number (i_ino (inodes s inode)))
                       (released atimefile inode s))
                  else released atimefile inode s)
           \<and> (atimefile \<noteq> inode \<longrightarrow>
                entries (block_view (snd (nilfs_atime_fill_inode (Some atimefile) inode s))
                           atimefile (nilfs_atime_get_block_number (i_ino (inodes s inode))))
                  (nilfs_atime_get_entry_in_block (i_ino (inodes s inode)))
                  = i_atime (inodes (snd (nilfs_atime_fill_inode (Some atimefile) inode s))
                               inode)
                \<and> calls_since s (snd (nilfs_atime_fill_inode (Some atimefile) inode s))
                    = get_events atimefile
                        (nilfs_atime_get_block_number (i_ino (inodes s inode)))
                      @ put_events atimefile
                          (nilfs_atime_get_block_number (i_ino (inodes s inode))))
           \<and> entries (block_view (snd (nilfs_atime_update_from_inode atimefile inode s))
                        atimefile (nilfs_atime_get_block_number (i_ino (inodes s inode))))
               (nilfs_atime_get_entry_in_block (i_ino (inodes s inode)))
               = i_atime (inodes s inode)
           \<and> calls_since s (snd (nilfs_atime_update_from_inode atimefile inode s))
               = get_events atimefile (nilfs_atime_get_block_number (i_ino (inodes s inode)))
                 @ put_events atimefile
                     (nilfs_atime_get_block_number (i_ino (inodes s inode)))
           \<and> entries (block_view (snd (nilfs_atime_delete_inode_entry atimefile inode s))
                        atimefile (nilfs_atime_get_block_number (i_ino (inodes s inode))))
               (nilfs_atime_get_entry_in_block (i_ino (inodes s inode)))
               = \<lparr>tv_sec = 0, tv_nsec = 0\<rparr>
           \<and> count (header (block_view
                        (snd (nilfs_atime_delete_inode_entry atimefile inode s))
                        atimefile (nilfs_atime_get_block_number (i_ino (inodes s inode)))))
               = count (header (block_view s atimefile
                          (nilfs_atime_get_block_number (i_ino (inodes s inode))))) - 1
           \<and> take 8 (calls_since s (snd (nilfs_atime_delete_inode_entry atimefile inode s)))
               = get_events atimefile (nilfs_atime_get_block_number (i_ino (inodes s inode)))
                 @ put_events atimefile
                     (nilfs_atime_get_block_number (i_ino (inodes s inode))))"
proof -
  have bypass: "atimefile = inode \<longrightarrow>
      nilfs_atime_fill_inode (Some atimefile) inode s =
        (Inr (), s\<lparr>inodes := (inodes s)
                      (inode := (inodes s inode)\<lparr>i_atime := i_mtime (inodes s inode)\<rparr>)\<rparr>)"
    by (simp add: fill_inode_bypass)
  show ?thesis
  proof (cases "fst (next_outcome s)")
    case None
    let ?bn = "nilfs_atime_get_block_number (i_ino (inodes s inode))"
    let ?i = "nilfs_atime_get_entry_in_block (i_ino (inodes s inode))"
    have uv: "entries (block_view (updated atimefile inode s) atimefile ?bn) ?i
                = i_atime (inodes s inode)"
      using view_acquired [OF updated_mdt, of atimefile inode s atimefile ?bn] by simp
    have uc: "calls_since s (updated atimefile inode s)
                = get_events atimefile ?bn @ put_events atimefile ?bn"
      by (simp add: updated_def calls_since_def Let_def)
    have fc: "calls_since s (filled atimefile inode s)
                = get_events atimefile ?bn @ put_events atimefile ?bn"
      by (simp add: filled_def calls_since_def Let_def)
    have fv: "entries (block_view (filled atimefile inode s) atimefile ?bn) ?i
                = i_atime (inodes (filled atimefile inode s) inode)"
      by (simp add: filled_view filled_inodes)
    have dv: "entries (block_view (snd (nilfs_atime_delete_inode_entry atimefile inode s))
                         atimefile ?bn) ?i = \<lparr>tv_sec = 0, tv_nsec = 0\<rparr>"
      "count (header (block_view (snd (nilfs_atime_delete_inode_entry atimefile inode s))
                         atimefile ?bn))
         = count (header (block_view s atimefile ?bn)) - 1"
      using delete_view [OF None, of atimefile inode] by simp_all
    have dc: "take 8 (calls_since s (snd (nilfs_atime_delete_inode_entry atimefile inode s)))
                = get_events atimefile ?bn @ put_events atimefile ?bn"
      by (simp add: delete_Inr [OF None] calls_since_def mdt_delete_block_trace
          released_trace get_events_def put_events_def)
    have d: "nilfs_atime_delete_inode_entry atimefile inode s
               = (Inr (),
                  if count (header (block_view s atimefile ?bn)) = 1
                  then snd (nilfs_mdt_delete_block atimefile ?bn (released atimefile inode s))
                  else released atimefile inode s)"
      by (rule delete_Inr [OF None])
    have f: "atimefile \<noteq> inode \<longrightarrow>
               nilfs_atime_fill_inode (Some atimefile) inode s
                 = (Inr (), filled atimefile inode s)"
      using None by (simp add: fill_inode_Inr)
    show ?thesis
      unfolding get_block_Inr [OF None] prod.case sum.case update_Inr [OF None] snd_conv
      using bypass f d dv dc uv uc fv fc by simp
  next
  next
    case (Some e)
    have "e = EIO \<or> e = ENOMEM" by (cases e) simp_all
    moreover have "retval (Inl e) = - 5 \<or> retval (Inl e) = - 12" by (cases e) simp_all
    ultimately show ?thesis
      using bypass Some
      by (simp add: get_block_Inl fill_inode_Inl update_Inl delete_Inl refused_frame)
  qed
qed


theorem acquisition_failure_propagates_witness:
  "(5::nat) \<noteq> 11
   \<and> nilfs_atime_get_block 5 10 (boot\<lparr>backing := [Some ENOMEM]\<rparr>)
       = (Inl ENOMEM, boot\<lparr>backing := [],
            trace := [Down_write 5, Mdt_get_block 5 0 (Some ENOMEM), Up_write 5]\<rparr>)
   \<and> nilfs_atime_fill_inode (Some 5) 11 (boot\<lparr>backing := [Some ENOMEM]\<rparr>)
       = (Inl ENOMEM, boot\<lparr>backing := [],
            trace := [Down_write 5, Mdt_get_block 5 0 (Some ENOMEM), Up_write 5]\<rparr>)
   \<and> nilfs_atime_update_from_inode 5 11 (boot\<lparr>backing := [Some ENOMEM]\<rparr>)
       = (Inl ENOMEM, boot\<lparr>backing := [],
            trace := [Down_write 5, Mdt_get_block 5 0 (Some ENOMEM), Up_write 5]\<rparr>)
   \<and> nilfs_atime_delete_inode_entry 5 11 (boot\<lparr>backing := [Some ENOMEM]\<rparr>)
       = (Inl ENOMEM, boot\<lparr>backing := [],
            trace := [Down_write 5, Mdt_get_block 5 0 (Some ENOMEM), Up_write 5]\<rparr>)
   \<and> nilfs_atime_update_from_inode 5 5 (boot\<lparr>backing := [Some EIO]\<rparr>)
       = (Inl EIO, boot\<lparr>backing := [],
            trace := [Down_write 5, Mdt_get_block 5 0 (Some EIO), Up_write 5]\<rparr>)
   \<and> nilfs_atime_delete_inode_entry 5 5 (boot\<lparr>backing := [Some EIO]\<rparr>)
       = (Inl EIO, boot\<lparr>backing := [],
            trace := [Down_write 5, Mdt_get_block 5 0 (Some EIO), Up_write 5]\<rparr>)
   \<and> fst (nilfs_atime_fill_inode (Some 5) 5 (boot\<lparr>backing := [Some EIO]\<rparr>)) = Inr ()
   \<and> fst (nilfs_atime_get_block 5 10 (filled 5 11 boot)) = Inr \<lparr>b_inode = 5, b_blocknr = 0\<rparr>
   \<and> nilfs_atime_update_from_inode 5 11 (filled 5 11 boot)
       = (Inr (), updated 5 11 (filled 5 11 boot))
   \<and> entries (block_view (snd (nilfs_atime_update_from_inode 5 11 (filled 5 11 boot))) 5 0) 10
       = \<lparr>tv_sec = 1000, tv_nsec = 0\<rparr>
   \<and> calls_since (filled 5 11 boot)
         (snd (nilfs_atime_update_from_inode 5 11 (filled 5 11 boot)))
       = get_events 5 0 @ put_events 5 0
   \<and> fst (nilfs_atime_delete_inode_entry 5 11 (filled 5 11 boot)) = Inr ()
   \<and> entries (block_view (snd (nilfs_atime_delete_inode_entry 5 11 (filled 5 11 boot))) 5 0) 10
       = \<lparr>tv_sec = 0, tv_nsec = 0\<rparr>
   \<and> count (header (block_view
         (snd (nilfs_atime_delete_inode_entry 5 11 (filled 5 11 boot))) 5 0)) = 0"
proof -
  have i5: "i_ino (inodes boot 5) = 0"
    by (simp add: boot_def)
  have g1: "nilfs_atime_get_block 5 10 (boot\<lparr>backing := [Some ENOMEM]\<rparr>)
       = (Inl ENOMEM, boot\<lparr>backing := [],
            trace := [Down_write 5, Mdt_get_block 5 0 (Some ENOMEM), Up_write 5]\<rparr>)"
    by (simp add: get_block_Inl next_outcome_def refused_def boot_simps block_numbers)
  have g2: "nilfs_atime_get_block 5 0 (boot\<lparr>backing := [Some EIO]\<rparr>)
       = (Inl EIO, boot\<lparr>backing := [],
            trace := [Down_write 5, Mdt_get_block 5 0 (Some EIO), Up_write 5]\<rparr>)"
    by (simp add: get_block_Inl next_outcome_def refused_def boot_simps block_numbers)
  have o: "fst (next_outcome (filled 5 11 boot)) = None"
    by (simp add: next_outcome_def boot_filled)
  have g3: "fst (nilfs_atime_get_block 5 10 (filled 5 11 boot))
              = Inr \<lparr>b_inode = 5, b_blocknr = 0\<rparr>"
    by (simp add: get_block_Inr o block_numbers)
  have a: "nilfs_atime_fill_inode (Some 5) 11 (boot\<lparr>backing := [Some ENOMEM]\<rparr>)
             = (Inl ENOMEM, boot\<lparr>backing := [],
                  trace := [Down_write 5, Mdt_get_block 5 0 (Some ENOMEM), Up_write 5]\<rparr>)
         \<and> nilfs_atime_update_from_inode 5 11 (boot\<lparr>backing := [Some ENOMEM]\<rparr>)
             = (Inl ENOMEM, boot\<lparr>backing := [],
                  trace := [Down_write 5, Mdt_get_block 5 0 (Some ENOMEM), Up_write 5]\<rparr>)
         \<and> nilfs_atime_delete_inode_entry 5 11 (boot\<lparr>backing := [Some ENOMEM]\<rparr>)
             = (Inl ENOMEM, boot\<lparr>backing := [],
                  trace := [Down_write 5, Mdt_get_block 5 0 (Some ENOMEM), Up_write 5]\<rparr>)"
    using acquisition_failure_propagates [of 5 11 "boot\<lparr>backing := [Some ENOMEM]\<rparr>"] g1
    by (simp add: boot_simps)
  have b: "nilfs_atime_update_from_inode 5 5 (boot\<lparr>backing := [Some EIO]\<rparr>)
             = (Inl EIO, boot\<lparr>backing := [],
                  trace := [Down_write 5, Mdt_get_block 5 0 (Some EIO), Up_write 5]\<rparr>)
         \<and> nilfs_atime_delete_inode_entry 5 5 (boot\<lparr>backing := [Some EIO]\<rparr>)
             = (Inl EIO, boot\<lparr>backing := [],
                  trace := [Down_write 5, Mdt_get_block 5 0 (Some EIO), Up_write 5]\<rparr>)
         \<and> fst (nilfs_atime_fill_inode (Some 5) 5 (boot\<lparr>backing := [Some EIO]\<rparr>)) = Inr ()"
    using acquisition_failure_propagates [of 5 5 "boot\<lparr>backing := [Some EIO]\<rparr>"] g2
    by (simp add: i5)
  have c: "nilfs_atime_update_from_inode 5 11 (filled 5 11 boot)
             = (Inr (), updated 5 11 (filled 5 11 boot))
         \<and> entries (block_view (snd (nilfs_atime_update_from_inode 5 11 (filled 5 11 boot)))
                      5 0) 10 = \<lparr>tv_sec = 1000, tv_nsec = 0\<rparr>
         \<and> calls_since (filled 5 11 boot)
               (snd (nilfs_atime_update_from_inode 5 11 (filled 5 11 boot)))
             = get_events 5 0 @ put_events 5 0
         \<and> fst (nilfs_atime_delete_inode_entry 5 11 (filled 5 11 boot)) = Inr ()
         \<and> entries (block_view (snd (nilfs_atime_delete_inode_entry 5 11 (filled 5 11 boot)))
                      5 0) 10 = \<lparr>tv_sec = 0, tv_nsec = 0\<rparr>
         \<and> count (header (block_view
               (snd (nilfs_atime_delete_inode_entry 5 11 (filled 5 11 boot))) 5 0)) = 0"
    using acquisition_failure_propagates [of 5 11 "filled 5 11 boot"]
    by (auto simp add: get_block_Inr [OF o] boot_filled block_numbers)
  have n: "(5::nat) \<noteq> 11"
    by simp
  show ?thesis
    using n a b c g1 g3 by blast
qed

subsection \<open>Blocks do not interfere\<close>

text \<open>
  C9. With 512 bytes for the block, 8 for the header and 16 for an entry, a block has
  \<open>(512 - 8) div 16 = 31\<close> entries; inode number 30 lies in block 0 and inode number
  31 in block 1. Whatever fill, update or delete does for an inode, whether it succeeds
  or fails, every block of the atime file other than the block of the inode's number
  keeps its contents (counter and entries) and stays mapped or unmapped as it was.
\<close>

theorem blocks_are_independent:
  "NILFS_ENTRIES_IN_ATIME_BLOCK = (512 - 8) div 16
   \<and> unat NILFS_ENTRIES_IN_ATIME_BLOCK = 31
   \<and> nilfs_atime_get_block_number 30 = 0
   \<and> nilfs_atime_get_block_number 31 = 1
   \<and> (b \<noteq> nilfs_atime_get_block_number (i_ino (inodes s inode)) \<longrightarrow>
        data (mdt (snd (nilfs_atime_fill_inode (Some atimefile) inode s)) atimefile) b
          = data (mdt s atimefile) b
        \<and> (b \<in> mapped (mdt (snd (nilfs_atime_fill_inode (Some atimefile) inode s)) atimefile))
            = (b \<in> mapped (mdt s atimefile))
        \<and> data (mdt (snd (nilfs_atime_update_from_inode atimefile inode s)) atimefile) b
            = data (mdt s atimefile) b
        \<and> (b \<in> mapped (mdt (snd (nilfs_atime_update_from_inode atimefile inode s)) atimefile))
            = (b \<in> mapped (mdt s atimefile))
        \<and> data (mdt (snd (nilfs_atime_delete_inode_entry atimefile inode s)) atimefile) b
            = data (mdt s atimefile) b
        \<and> (b \<in> mapped (mdt (snd (nilfs_atime_delete_inode_entry atimefile inode s)) atimefile))
            = (b \<in> mapped (mdt s atimefile)))"
proof -
  have n: "NILFS_ENTRIES_IN_ATIME_BLOCK = (512 - 8) div 16"
    by (simp add: NILFS_ENTRIES_IN_ATIME_BLOCK_def sizeof_nilfs_atime_block_header_def
        sizeof_timespec_def)
  have u: "unat NILFS_ENTRIES_IN_ATIME_BLOCK = 31"
    by (simp add: entries_in_block_31)
  have frame: "b \<noteq> nilfs_atime_get_block_number (i_ino (inodes s inode)) \<longrightarrow>
        data (mdt (snd (nilfs_atime_fill_inode (Some atimefile) inode s)) atimefile) b
          = data (mdt s atimefile) b
        \<and> (b \<in> mapped (mdt (snd (nilfs_atime_fill_inode (Some atimefile) inode s)) atimefile))
            = (b \<in> mapped (mdt s atimefile))
        \<and> data (mdt (snd (nilfs_atime_update_from_inode atimefile inode s)) atimefile) b
            = data (mdt s atimefile) b
        \<and> (b \<in> mapped (mdt (snd (nilfs_atime_update_from_inode atimefile inode s)) atimefile))
            = (b \<in> mapped (mdt s atimefile))
        \<and> data (mdt (snd (nilfs_atime_delete_inode_entry atimefile inode s)) atimefile) b
            = data (mdt s atimefile) b
        \<and> (b \<in> mapped (mdt (snd (nilfs_atime_delete_inode_entry atimefile inode s)) atimefile))
            = (b \<in> mapped (mdt s atimefile))"
    using fill_frame [of atimefile atimefile b s inode]
      update_frame [of atimefile atimefile b s inode]
      delete_frame [of atimefile atimefile b s inode]
    by blast
  show ?thesis
    using n u block_numbers(2,3) frame by blast
qed


lemma boot_filled_more:
  "inodes (filled 5 11 boot) 13 = inodes boot 13"
  "data (mdt (filled 5 11 boot) 5) 0 =
     \<lparr>header = \<lparr>count = 1\<rparr>,
      entries = (\<lambda>_. \<lparr>tv_sec = 0, tv_nsec = 0\<rparr>)(10 := \<lparr>tv_sec = 1000, tv_nsec = 0\<rparr>)\<rparr>"
  by (simp_all add: filled_def Let_def boot_simps block_numbers
      boot_view block_after_fill_def acquire_def nilfs_atime_block_init_def)

theorem blocks_are_independent_witness:
  "(0::u64) \<noteq> nilfs_atime_get_block_number (i_ino (inodes (filled 5 11 boot) 13))
   \<and> count (header (data (mdt (filled 5 11 boot) 5) 0)) = 1
   \<and> data (mdt (snd (nilfs_atime_fill_inode (Some 5) 13 (filled 5 11 boot))) 5) 0
       = data (mdt (filled 5 11 boot) 5) 0
   \<and> data (mdt (snd (nilfs_atime_update_from_inode 5 13 (filled 5 11 boot))) 5) 0
       = data (mdt (filled 5 11 boot) 5) 0
   \<and> data (mdt (snd (nilfs_atime_delete_inode_entry 5 13 (filled 5 11 boot))) 5) 0
       = data (mdt (filled 5 11 boot) 5) 0
   \<and> 0 \<in> mapped (mdt (snd (nilfs_atime_delete_inode_entry 5 13 (filled 5 11 boot))) 5)"
proof -
  have ne: "(0::u64) \<noteq> nilfs_atime_get_block_number (i_ino (inodes (filled 5 11 boot) 13))"
    by (simp add: boot_filled_more boot_simps block_numbers)
  have c: "count (header (data (mdt (filled 5 11 boot) 5) 0)) = 1"
    by (simp add: boot_filled_more)
  have m: "0 \<in> mapped (mdt (filled 5 11 boot) 5)"
    by (simp add: boot_filled)
  show ?thesis
    using blocks_are_independent [of 0 "filled 5 11 boot" 13 5] ne c m by blast
qed

subsection \<open>The counter and the valid entries\<close>

lemma filter_upd_count:
  assumes "i < n"
  shows "length (filter (\<lambda>j. P ((f(i := v)) j)) [0..<n]) + of_bool (P (f i))
         = length (filter (\<lambda>j. P (f j)) [0..<n]) + of_bool (P v)"
  using assms
proof (induction n)
  case 0
  then show ?case by simp
next
  case (Suc n)
  show ?case
  proof (cases "i = n")
    case True
    have "filter (\<lambda>j. P ((f(i := v)) j)) [0..<n] = filter (\<lambda>j. P (f j)) [0..<n]"
      using True by (intro filter_cong) auto
    then show ?thesis using True by (cases "P v"; cases "P (f n)") simp_all
  next
    case False
    then have "i < n" using Suc.prems by simp
    from Suc.IH [OF this] False show ?thesis
      by (cases "P (f n)") (simp_all del: fun_upd_apply add: fun_upd_other)
  qed
qed

lemma live_entries_header [simp]: "live_entries (blk\<lparr>header := h\<rparr>) = live_entries blk"
  by (simp add: live_entries_def)

lemma live_entries_upd:
  assumes "i < unat NILFS_ENTRIES_IN_ATIME_BLOCK"
  shows "live_entries (blk\<lparr>entries := (entries blk)(i := t)\<rparr>)
           + of_bool (\<not> invalid (entries blk i))
         = live_entries blk + of_bool (\<not> invalid t)"
  using filter_upd_count [OF assms, of "\<lambda>t. \<not> invalid t" "entries blk" t]
  by (simp add: live_entries_def del: fun_upd_apply)

lemma live_entries_le: "live_entries blk \<le> 31"
  using length_filter_le [of "\<lambda>i. \<not> invalid (entries blk i)" "[0..<31]"]
  by (simp add: live_entries_def entries_in_block_31)

lemma count_ok_init: "count_ok (nilfs_atime_block_init x)"
  by (simp add: count_ok_def live_entries_def nilfs_atime_block_init_def invalid_def)


lemma count_ok_fill:
  assumes "count_ok blk" and "\<not> invalid t" and "i < unat NILFS_ENTRIES_IN_ATIME_BLOCK"
  shows "count_ok (block_after_fill blk i t)"
proof (cases "invalid (entries blk i)")
  case False
  then show ?thesis using assms(1) by (simp add: block_after_fill_valid)
next
  case True
  have live: "live_entries (blk\<lparr>entries := (entries blk)(i := t)\<rparr>) = live_entries blk + 1"
    using live_entries_upd [OF assms(3), of blk t] True assms(2) by simp
  have le: "unat (count (header blk)) \<le> 31"
    using assms(1) live_entries_le [of blk] by (simp add: count_ok_def)
  have "unat (count (header blk) + 1) = unat (count (header blk)) + 1"
  proof -
    have "unat (count (header blk) + 1) = (unat (count (header blk)) + 1) mod 2 ^ 64"
      by (simp add: unat_word_ariths)
    also have "\<dots> = unat (count (header blk)) + 1"
      using le by simp
    finally show ?thesis .
  qed
  then show ?thesis
    using assms(1) live True by (simp add: block_after_fill_invalid count_ok_def)
qed


lemma count_ok_delete:
  assumes "count_ok blk" and "\<not> invalid (entries blk i)"
    and "i < unat NILFS_ENTRIES_IN_ATIME_BLOCK"
  shows "count_ok (block_after_delete blk i)"
proof -
  have z: "invalid \<lparr>tv_sec = 0, tv_nsec = 0\<rparr>"
    by (simp add: invalid_def)
  have live: "live_entries (blk\<lparr>entries := (entries blk)(i := \<lparr>tv_sec = 0, tv_nsec = 0\<rparr>)\<rparr>) + 1
                = live_entries blk"
    using live_entries_upd [OF assms(3), of blk "\<lparr>tv_sec = 0, tv_nsec = 0\<rparr>"] assms(2) z
    by simp
  then have "unat (count (header blk)) \<noteq> 0"
    using assms(1) by (simp add: count_ok_def)
  then have nz: "count (header blk) \<noteq> 0"
    by (simp add: unat_eq_0)
  have "unat (count (header blk) - 1) = unat (count (header blk)) - 1"
    using nz by (rule unat_minus_one)
  then show ?thesis
    using assms(1) live by (simp add: block_after_delete_def count_ok_def)
qed


lemma view_inodes [simp]: "block_view (s\<lparr>inodes := x\<rparr>) f n = block_view s f n"
  by (simp add: block_view_def)

lemma view_refused [simp]: "block_view (refused af m e s) f n = block_view s f n"
  by (simp add: block_view_def refused_def)

lemma fill_preserves:
  assumes "\<forall>bn. count_ok (block_view s af bn)" and "\<not> invalid (i_mtime (inodes s p))"
  shows "count_ok (block_view (snd (nilfs_atime_fill_inode (Some af) p s)) af bn)"
proof (cases "af = p")
  case True
  then show ?thesis
    using assms(1) by (simp add: fill_inode_bypass)
next
  case False
  show ?thesis
  proof (cases "fst (next_outcome s)")
    case None
    have "count_ok (block_after_fill
                      (block_view s af (nilfs_atime_get_block_number (i_ino (inodes s p))))
                      (nilfs_atime_get_entry_in_block (i_ino (inodes s p)))
                      (i_mtime (inodes s p)))"
      using assms(1) assms(2) entry_in_block_bound by (intro count_ok_fill) simp_all
    then show ?thesis
      unfolding fill_inode_Inr [OF False None] snd_conv
      using assms(1) by (simp add: filled_view)
  next
    case (Some e)
    show ?thesis
      unfolding fill_inode_Inl [OF False Some] snd_conv
      using assms(1) by simp
  qed
qed

lemma delete_preserves:
  assumes "\<forall>bn. count_ok (block_view s af bn)"
    and "\<not> invalid (entries (block_view s af (nilfs_atime_get_block_number (i_ino (inodes s p))))
                       (nilfs_atime_get_entry_in_block (i_ino (inodes s p))))"
  shows "count_ok (block_view (snd (nilfs_atime_delete_inode_entry af p s)) af bn)"
proof (cases "fst (next_outcome s)")
  case None
  have "count_ok (block_after_delete
                    (block_view s af (nilfs_atime_get_block_number (i_ino (inodes s p))))
                    (nilfs_atime_get_entry_in_block (i_ino (inodes s p))))"
    using assms(1) assms(2) entry_in_block_bound by (intro count_ok_delete) simp_all
  then have r: "count_ok (block_view (released af p s) af b)" for b
    using assms(1) by (simp add: released_view)
  show ?thesis
    unfolding delete_Inr [OF None] snd_conv
    using r by (simp add: reclaimed_view count_ok_init)
next
  case (Some e)
  show ?thesis
    unfolding delete_Inl [OF Some] snd_conv
    using assms(1) by simp
qed

lemma step_preserves:
  assumes "\<forall>bn. count_ok (block_view s af bn)" and "regular_op af x s"
  shows "\<forall>bn. count_ok (block_view (step af x s) af bn)"
proof (cases x)
  case (Fill p)
  then show ?thesis using assms fill_preserves [of s af p] by simp
next
  case (Delete p)
  then show ?thesis using assms delete_preserves [of s af p] by simp
qed

lemma run_preserves:
  assumes "\<forall>bn. count_ok (block_view s af bn)" and "regular af xs s"
  shows "\<forall>bn. count_ok (block_view (run af xs s) af bn)"
  using assms
proof (induction xs arbitrary: s)
  case Nil
  then show ?case by simp
next
  case (Cons x xs)
  have "\<forall>bn. count_ok (block_view (step af x s) af bn)"
    using Cons.prems by (intro step_preserves) simp_all
  moreover have "regular af xs (step af x s)"
    using Cons.prems by simp
  ultimately show ?case
    using Cons.IH by simp
qed


lemma count_ok_views:
  "(\<forall>bn. count_ok (block_view s af bn))
     = (\<forall>bn \<in> mapped (mdt s af). count_ok (data (mdt s af) bn))"
  by (auto simp add: block_view_def count_ok_init)

lemma live_entries_none:
  "(\<And>i. invalid (entries blk i)) \<Longrightarrow> live_entries blk = 0"
  by (simp add: live_entries_def)

text \<open>
  C1, for regular sequences. A newly initialized block satisfies the equality of counter
  and valid entries. From a state in which the counter of every mapped block of the
  atime file equals the number of its entries other than (0,0) (a file with no block
  yet, or with newly initialized blocks only, is such a state), every sequence of fills
  and deletes in which each fill comes with an \<^verbatim>\<open>i_mtime\<close> other than (0,0) and
  each delete finds a valid entry in its slot leads to a state in which the equality
  holds again for every mapped block. Failing acquisitions and failing reclamations may
  occur anywhere in the sequence.
\<close>

theorem counter_matches_live_entries:
  assumes "\<forall>bn \<in> mapped (mdt s atimefile). count_ok (data (mdt s atimefile) bn)"
    and "regular atimefile ops s"
  shows "count_ok (nilfs_atime_block_init blk)
       \<and> (\<forall>bn \<in> mapped (mdt (run atimefile ops s) atimefile).
             unat (count (header (data (mdt (run atimefile ops s) atimefile) bn)))
               = live_entries (data (mdt (run atimefile ops s) atimefile) bn))"
proof -
  have "\<forall>bn. count_ok (block_view s atimefile bn)"
    using assms(1) by (simp add: count_ok_views)
  then have "\<forall>bn. count_ok (block_view (run atimefile ops s) atimefile bn)"
    using assms(2) by (rule run_preserves)
  then have "\<forall>bn \<in> mapped (mdt (run atimefile ops s) atimefile).
               count_ok (data (mdt (run atimefile ops s) atimefile) bn)"
    by (simp add: count_ok_views)
  then show ?thesis
    using count_ok_init [of blk] by (simp add: count_ok_def)
qed

lemma run_boot_delete:
  "run 5 [Delete 11] boot = released 5 11 boot"
  by (simp add: delete_Inr boot_outcome boot_simps block_numbers boot_view)

lemma run_boot_fill_zero:
  "run 5 [Fill 20] boot = filled 5 20 boot"
  by (simp add: fill_inode_Inr boot_outcome)

text \<open>
  C1 does not hold for every sequence. From the example state, where the atime file has
  no block yet, a single delete of an entry that was never filled creates block 0 and
  leaves its counter at \<open>2 ^ 64 - 1\<close> with no valid entry; and a single fill for an
  inode whose \<^verbatim>\<open>i_mtime\<close> is (0,0) leaves the counter at 1 with no valid entry.
\<close>

theorem counter_matches_live_entries_counterexample:
  "mapped (mdt boot 5) = {}
   \<and> 0 \<in> mapped (mdt (run 5 [Delete 11] boot) 5)
   \<and> unat (count (header (data (mdt (run 5 [Delete 11] boot) 5) 0))) = 18446744073709551615
   \<and> live_entries (data (mdt (run 5 [Delete 11] boot) 5) 0) = 0
   \<and> \<not> count_ok (data (mdt (run 5 [Delete 11] boot) 5) 0)
   \<and> 0 \<in> mapped (mdt (run 5 [Fill 20] boot) 5)
   \<and> unat (count (header (data (mdt (run 5 [Fill 20] boot) 5) 0))) = 1
   \<and> live_entries (data (mdt (run 5 [Fill 20] boot) 5) 0) = 0
   \<and> \<not> count_ok (data (mdt (run 5 [Fill 20] boot) 5) 0)"
proof -
  have d: "data (mdt (released 5 11 boot) 5) 0 =
             \<lparr>header = \<lparr>count = - 1\<rparr>, entries = (\<lambda>_. \<lparr>tv_sec = 0, tv_nsec = 0\<rparr>)\<rparr>"
    by (simp add: released_mdt boot_simps block_numbers boot_view block_after_delete_def
        fun_eq_iff)
  have f: "data (mdt (filled 5 20 boot) 5) 0 =
             \<lparr>header = \<lparr>count = 1\<rparr>, entries = (\<lambda>_. \<lparr>tv_sec = 0, tv_nsec = 0\<rparr>)\<rparr>"
    by (simp add: filled_mdt boot_simps block_numbers boot_view block_after_fill_def
        fun_eq_iff)
  have l: "live_entries \<lparr>header = h, entries = (\<lambda>_. \<lparr>tv_sec = 0, tv_nsec = 0\<rparr>)\<rparr> = 0" for h
    by (rule live_entries_none) (simp add: invalid_def)
  have m: "0 \<in> mapped (mdt (released 5 11 boot) 5)" "0 \<in> mapped (mdt (filled 5 20 boot) 5)"
    by (simp_all add: released_mdt filled_mdt boot_simps block_numbers)
  show ?thesis
    unfolding run_boot_delete run_boot_fill_zero d f
    using m l
    by (simp add: boot_simps count_ok_def unsigned_minus_1_eq_mask mask_eq_exp_minus_1)
qed


lemma boot_two_fills:
  "inodes (filled 5 11 boot) 14 = inodes boot 14"
  "inodes (filled 5 14 (filled 5 11 boot)) 11 = inodes (filled 5 11 boot) 11"
  "block_view (filled 5 14 (filled 5 11 boot)) 5 0 =
     \<lparr>header = \<lparr>count = 2\<rparr>,
      entries = (\<lambda>_. \<lparr>tv_sec = 0, tv_nsec = 0\<rparr>)
        (10 := \<lparr>tv_sec = 1000, tv_nsec = 0\<rparr>, 30 := \<lparr>tv_sec = 1500, tv_nsec = 0\<rparr>)\<rparr>"
  "fst (next_outcome (filled 5 11 boot)) = None"
  "fst (next_outcome (filled 5 14 (filled 5 11 boot))) = None"
proof -
  show a: "inodes (filled 5 11 boot) 14 = inodes boot 14"
    by (simp add: filled_inodes)
  show "inodes (filled 5 14 (filled 5 11 boot)) 11 = inodes (filled 5 11 boot) 11"
    by (simp add: filled_inodes)
  show "block_view (filled 5 14 (filled 5 11 boot)) 5 0 =
     \<lparr>header = \<lparr>count = 2\<rparr>,
      entries = (\<lambda>_. \<lparr>tv_sec = 0, tv_nsec = 0\<rparr>)
        (10 := \<lparr>tv_sec = 1000, tv_nsec = 0\<rparr>, 30 := \<lparr>tv_sec = 1500, tv_nsec = 0\<rparr>)\<rparr>"
    by (simp add: filled_view a boot_simps block_numbers boot_filled boot_view
        block_after_fill_def)
  show b: "fst (next_outcome (filled 5 11 boot)) = None"
    by (simp add: next_outcome_def boot_filled)
  show "fst (next_outcome (filled 5 14 (filled 5 11 boot))) = None"
    using b by (simp add: next_outcome_def filled_def Let_def acquire_def boot_simps
        split: list.splits)
qed

theorem counter_matches_live_entries_witness:
  "mapped (mdt boot 5) = {}
   \<and> regular 5 [Fill 11, Fill 14, Delete 11] boot
   \<and> 0 \<in> mapped (mdt (run 5 [Fill 11, Fill 14, Delete 11] boot) 5)
   \<and> count (header (data (mdt (run 5 [Fill 11, Fill 14, Delete 11] boot) 5) 0)) = 1
   \<and> live_entries (data (mdt (run 5 [Fill 11, Fill 14, Delete 11] boot) 5) 0) = 1"
proof -
  have f1: "nilfs_atime_fill_inode (Some 5) 11 boot = (Inr (), filled 5 11 boot)"
    by (rule boot_filled)
  have f2: "nilfs_atime_fill_inode (Some 5) 14 (filled 5 11 boot)
              = (Inr (), filled 5 14 (filled 5 11 boot))"
    by (simp add: fill_inode_Inr boot_two_fills)
  have d: "nilfs_atime_delete_inode_entry 5 11 (filled 5 14 (filled 5 11 boot))
             = (Inr (), released 5 11 (filled 5 14 (filled 5 11 boot)))"
    by (simp add: delete_Inr boot_two_fills boot_filled block_numbers)
  have r: "run 5 [Fill 11, Fill 14, Delete 11] boot
             = released 5 11 (filled 5 14 (filled 5 11 boot))"
    by (simp add: f1 f2 d)
  have reg: "regular 5 [Fill 11, Fill 14, Delete 11] boot"
    by (simp add: f1 f2 boot_two_fills boot_filled boot_simps block_numbers invalid_def)
  have m: "0 \<in> mapped (mdt (released 5 11 (filled 5 14 (filled 5 11 boot))) 5)"
    by (simp add: released_mdt boot_two_fills boot_filled block_numbers)
  have c: "count (header (data (mdt (released 5 11 (filled 5 14 (filled 5 11 boot))) 5) 0)) = 1"
    by (simp add: released_mdt boot_two_fills boot_filled block_numbers block_after_delete_def)
  have e: "mapped (mdt boot 5) = {}"
    by (simp add: boot_simps)
  have h: "\<forall>bn \<in> mapped (mdt boot 5). count_ok (data (mdt boot 5) bn)"
    by (simp add: boot_simps)
  have "unat (count (header (data (mdt (run 5 [Fill 11, Fill 14, Delete 11] boot) 5) 0)))
          = live_entries (data (mdt (run 5 [Fill 11, Fill 14, Delete 11] boot) 5) 0)"
    using counter_matches_live_entries [OF h reg] m r by simp
  then show ?thesis
    using e reg m c r by simp
qed

end
